theory Spec2Isabelle
  imports Main
begin

section \<open>The logger package\<close>

text \<open>
  The logger (package \<open>logger\<close>) prints a line when the global level is at most the
  level of the call. The model records every call a function makes to the logger as
  an entry: the level, the format string and the arguments, in call order. Which
  entries reach the output is \<open>printed\<close>.
\<close>

datatype LogLevel = LevelTrace | LevelDebug | LevelInfo | LevelWarning | LevelError

fun level_rank :: "LogLevel \<Rightarrow> nat" where
  "level_rank LevelTrace = 0"
| "level_rank LevelDebug = 1"
| "level_rank LevelInfo = 2"
| "level_rank LevelWarning = 3"
| "level_rank LevelError = 4"

datatype log_arg = ArgString string | ArgStrings "string list" | ArgInt nat

type_synonym log_entry = "LogLevel \<times> string \<times> log_arg list"

definition Tracef :: "string \<Rightarrow> log_arg list \<Rightarrow> log_entry" where
  "Tracef format v = (LevelTrace, format, v)"

definition Debugf :: "string \<Rightarrow> log_arg list \<Rightarrow> log_entry" where
  "Debugf format v = (LevelDebug, format, v)"

definition Infof :: "string \<Rightarrow> log_arg list \<Rightarrow> log_entry" where
  "Infof format v = (LevelInfo, format, v)"

definition Warnf :: "string \<Rightarrow> log_arg list \<Rightarrow> log_entry" where
  "Warnf format v = (LevelWarning, format, v)"

definition Errorf :: "string \<Rightarrow> log_arg list \<Rightarrow> log_entry" where
  "Errorf format v = (LevelError, format, v)"

definition printed :: "LogLevel \<Rightarrow> log_entry list \<Rightarrow> log_entry list" where
  "printed currentLogLevel entries =
     filter (\<lambda>entry. level_rank currentLogLevel \<le> level_rank (fst entry)) entries"

definition at_level :: "LogLevel \<Rightarrow> log_entry list \<Rightarrow> log_entry list" where
  "at_level l entries = filter (\<lambda>entry. fst entry = l) entries"

section \<open>Go strings: UTF-8 decoding and the \<open>strings\<close> functions the code calls\<close>

text \<open>
  A Go string is a sequence of bytes: \<open>string\<close> here, one \<open>char\<close> per byte. The
  functions of this section are those of Go's standard library that the repository
  calls (\<open>unicode/utf8\<close>, \<open>unicode\<close>, \<open>strings\<close>); a rune is its code point.
\<close>

definition RuneError :: nat where
  "RuneError = 0xFFFD"

text \<open>For a leading byte: the length of the encoding and the range of the second byte.\<close>

definition utf8_first :: "nat \<Rightarrow> (nat \<times> nat \<times> nat) option" where
  "utf8_first b =
     (if 0xC2 \<le> b \<and> b \<le> 0xDF then Some (2, 0x80, 0xBF)
      else if b = 0xE0 then Some (3, 0xA0, 0xBF)
      else if b = 0xED then Some (3, 0x80, 0x9F)
      else if 0xE1 \<le> b \<and> b \<le> 0xEF then Some (3, 0x80, 0xBF)
      else if b = 0xF0 then Some (4, 0x90, 0xBF)
      else if 0xF1 \<le> b \<and> b \<le> 0xF3 then Some (4, 0x80, 0xBF)
      else if b = 0xF4 then Some (4, 0x80, 0x8F)
      else None)"

text \<open>\<open>utf8.DecodeRuneInString\<close>: the first rune of \<open>s\<close> and its width in bytes;
  \<open>(RuneError, 1)\<close> for an invalid encoding, \<open>(RuneError, 0)\<close> for the empty string.\<close>

definition DecodeRuneInString :: "string \<Rightarrow> nat \<times> nat" where
  "DecodeRuneInString s =
     (case s of
        [] \<Rightarrow> (RuneError, 0)
      | c0 # cs \<Rightarrow>
          (let s0 = (of_char c0 :: nat) in
           if s0 < 0x80 then (s0, 1)
           else (case utf8_first s0 of
                   None \<Rightarrow> (RuneError, 1)
                 | Some (sz, lo, hi) \<Rightarrow>
                     if length s < sz then (RuneError, 1)
                     else (let s1 = (of_char (s ! 1) :: nat) in
                       if s1 < lo \<or> hi < s1 then (RuneError, 1)
                       else if sz \<le> 2 then ((s0 mod 32) * 64 + s1 mod 64, 2)
                       else (let s2 = (of_char (s ! 2) :: nat) in
                         if s2 < 0x80 \<or> 0xBF < s2 then (RuneError, 1)
                         else if sz \<le> 3 then
                           ((s0 mod 16) * 4096 + (s1 mod 64) * 64 + s2 mod 64, 3)
                         else (let s3 = (of_char (s ! 3) :: nat) in
                           if s3 < 0x80 \<or> 0xBF < s3 then (RuneError, 1)
                           else ((s0 mod 8) * 262144 + (s1 mod 64) * 4096 + (s2 mod 64) * 64
                                   + s3 mod 64, 4)))))))"

lemma utf8_first_size:
  "utf8_first b = Some (sz, lo, hi) \<Longrightarrow> sz = 2 \<or> sz = 3 \<or> sz = 4"
  by (simp add: utf8_first_def split: if_splits)

lemma DecodeRuneInString_size:
  assumes "s \<noteq> []"
  shows "1 \<le> snd (DecodeRuneInString s) \<and> snd (DecodeRuneInString s) \<le> length s"
proof -
  from assms obtain c0 cs where s: "s = c0 # cs" by (cases s) auto
  show ?thesis
  proof (cases "utf8_first (of_char c0)")
    case None
    then show ?thesis by (simp add: DecodeRuneInString_def s Let_def)
  next
    case (Some t)
    obtain sz lo hi where t: "t = (sz, lo, hi)" by (cases t) auto
    from Some t have "sz = 2 \<or> sz = 3 \<or> sz = 4" using utf8_first_size by blast
    then show ?thesis
      by (cases cs) (auto simp: DecodeRuneInString_def s Let_def Some t)
  qed
qed

text \<open>\<open>utf8.RuneStart\<close>: the byte is not a continuation byte (\<open>b & 0xC0 != 0x80\<close>).\<close>

definition RuneStart :: "char \<Rightarrow> bool" where
  "RuneStart b = ((of_char b :: nat) div 64 \<noteq> 2)"

text \<open>\<open>utf8.DecodeLastRuneInString\<close>: the last rune of \<open>s\<close> and its width. It looks for
  the start of the rune among the three bytes before the last one (\<open>lastRuneStart\<close>),
  decodes forward from there, and accepts the rune when it ends where the string
  ends.\<close>

definition lastRuneStart :: "string \<Rightarrow> int" where
  "lastRuneStart s =
     (let n = int (length s); lim = max 0 (n - 4) in
      case find (\<lambda>p. RuneStart (s ! nat p))
                (filter (\<lambda>p. lim \<le> p) [n - 2, n - 3, n - 4]) of
        Some p \<Rightarrow> p
      | None \<Rightarrow> max 0 (lim - 1))"

definition DecodeLastRuneInString :: "string \<Rightarrow> nat \<times> nat" where
  "DecodeLastRuneInString s =
     (if s = [] then (RuneError, 0)
      else (let r = (of_char (last s) :: nat) in
        if r < 0x80 then (r, 1)
        else (let start = lastRuneStart s;
                  (r, size) = DecodeRuneInString (drop (nat start) s)
              in if start + int size \<noteq> int (length s) then (RuneError, 1) else (r, size))))"

text \<open>\<open>unicode.IsSpace\<close>: the code points with Unicode's White Space property.\<close>

definition IsSpace :: "nat \<Rightarrow> bool" where
  "IsSpace r =
     ((0x09 \<le> r \<and> r \<le> 0x0D) \<or> r = 0x20 \<or> r = 0x85 \<or> r = 0xA0 \<or> r = 0x1680
      \<or> (0x2000 \<le> r \<and> r \<le> 0x200A) \<or> r = 0x2028 \<or> r = 0x2029 \<or> r = 0x202F
      \<or> r = 0x205F \<or> r = 0x3000)"

lemma find_Some_in_set: "find P xs = Some x \<Longrightarrow> x \<in> set xs"
  by (induction xs) (auto split: if_splits)

lemma lastRuneStart_bound:
  assumes "s \<noteq> []"
  shows "lastRuneStart s < int (length s)"
proof -
  define n where "n = int (length s)"
  define lim where "lim = max 0 (n - 4)"
  have "0 < n" using assms by (simp add: n_def)
  have eq: "lastRuneStart s =
      (case find (\<lambda>p. RuneStart (s ! nat p))
                 (filter (\<lambda>p. lim \<le> p) [n - 2, n - 3, n - 4]) of
         Some p \<Rightarrow> p
       | None \<Rightarrow> max 0 (lim - 1))"
    by (simp only: lastRuneStart_def Let_def lim_def n_def)
  show ?thesis
  proof (cases "find (\<lambda>p. RuneStart (s ! nat p))
                     (filter (\<lambda>p. lim \<le> p) [n - 2, n - 3, n - 4])")
    case None
    with eq have "lastRuneStart s = max 0 (lim - 1)" by (simp only: option.case)
    then show ?thesis
      using \<open>0 < n\<close> by (simp add: lim_def n_def)
  next
    case (Some p)
    then have "p \<in> set (filter (\<lambda>p. lim \<le> p) [n - 2, n - 3, n - 4])"
      by (rule find_Some_in_set)
    then have "p \<in> set [n - 2, n - 3, n - 4]"
      unfolding set_filter by blast
    then have "p < n" by auto
    moreover from eq Some have "lastRuneStart s = p" by (simp only: option.case)
    ultimately show ?thesis by (simp add: n_def)
  qed
qed

lemma DecodeLastRuneInString_size:
  assumes "s \<noteq> []"
  shows "1 \<le> snd (DecodeLastRuneInString s)"
proof -
  have "0 < length s" using assms by simp
  then have "nat (lastRuneStart s) < length s"
    using lastRuneStart_bound [OF assms] by linarith
  then have "1 \<le> snd (DecodeRuneInString (drop (nat (lastRuneStart s)) s))"
    using DecodeRuneInString_size [of "drop (nat (lastRuneStart s)) s"] by simp
  then show ?thesis
    using assms
    by (auto simp: DecodeLastRuneInString_def Let_def split: prod.splits)
qed

text \<open>\<open>strings.TrimLeftFunc(s, unicode.IsSpace)\<close>: drop leading white space runes.\<close>

function trimLeft :: "string \<Rightarrow> string" where
  "trimLeft s =
     (if s = [] then []
      else if IsSpace (fst (DecodeRuneInString s))
        then trimLeft (drop (snd (DecodeRuneInString s)) s)
        else s)"
  by pat_completeness auto
termination
proof (relation "measure length", goal_cases)
  case 1
  show ?case by simp
next
  case (2 s)
  then show ?case using DecodeRuneInString_size [of s] by simp
qed

text \<open>\<open>strings.TrimRightFunc(s, unicode.IsSpace)\<close>: drop trailing white space runes.\<close>

function trimRight :: "string \<Rightarrow> string" where
  "trimRight s =
     (if s = [] then []
      else if IsSpace (fst (DecodeLastRuneInString s))
        then trimRight (take (length s - snd (DecodeLastRuneInString s)) s)
        else s)"
  by pat_completeness auto
termination
proof (relation "measure length", goal_cases)
  case 1
  show ?case by simp
next
  case (2 s)
  then show ?case using DecodeLastRuneInString_size [of s] by (cases s) auto
qed

declare trimLeft.simps [simp del]

declare trimRight.simps [simp del]

text \<open>\<open>strings.TrimSpace\<close>: white space, as Unicode defines it, removed at both ends
  (its ASCII fast path gives the same result as the general path it falls back to).\<close>

definition TrimSpace :: "string \<Rightarrow> string" where
  "TrimSpace s = trimRight (trimLeft s)"

definition HasPrefix :: "string \<Rightarrow> string \<Rightarrow> bool" where
  "HasPrefix s prefix = (length prefix \<le> length s \<and> take (length prefix) s = prefix)"

text \<open>\<open>strings.SplitN(s, sep, 2)\<close> for a separator of one byte: the text before the
  first separator and the text after it, or \<open>s\<close> alone when it has no separator.\<close>

definition SplitN_2 :: "string \<Rightarrow> char \<Rightarrow> string list" where
  "SplitN_2 s sep =
     (if sep \<in> set s
      then [takeWhile (\<lambda>c. c \<noteq> sep) s, drop 1 (dropWhile (\<lambda>c. c \<noteq> sep) s)]
      else [s])"

text \<open>\<open>strings.Join\<close>.\<close>

fun Join :: "string list \<Rightarrow> string \<Rightarrow> string" where
  "Join [] sep = []"
| "Join [a] sep = a"
| "Join (a # b # rest) sep = a @ sep @ Join (b # rest) sep"

section \<open>Glob matching: \<open>path/filepath.Match\<close>\<close>

text \<open>
  \<open>isAddressAllowed\<close> matches an address against a pattern with \<open>filepath.Match\<close>
  of Go's standard library, as it runs on Linux (the separator is \<open>/\<close> and a
  backslash escapes the next character). The pattern language: \<open>*\<close> matches any
  run of non-separator characters, \<open>?\<close> one non-separator character, \<open>[...]\<close> a
  character class, anything else itself, byte for byte. A malformed chunk gives
  \<open>ErrBadPattern\<close>.
\<close>

datatype match_error = ErrBadPattern

text \<open>The scan loop of \<open>scanChunk\<close>: the length of the chunk, which ends before the
  first \<open>*\<close> outside a character class.\<close>

fun scanIdx :: "string \<Rightarrow> bool \<Rightarrow> nat" where
  "scanIdx [] inrange = 0"
| "scanIdx (c # cs) inrange =
     (if c = CHR 0x5C then (case cs of [] \<Rightarrow> 1 | d # ds \<Rightarrow> 2 + scanIdx ds inrange)
      else if c = CHR ''['' then 1 + scanIdx cs True
      else if c = CHR '']'' then 1 + scanIdx cs False
      else if c = CHR ''*'' \<and> \<not> inrange then 0
      else 1 + scanIdx cs inrange)"

text \<open>\<open>scanChunk\<close>: whether the pattern starts with stars, the chunk after them, and
  the rest of the pattern.\<close>

definition scanChunk :: "string \<Rightarrow> bool \<times> string \<times> string" where
  "scanChunk pattern =
     (let star = (pattern \<noteq> [] \<and> hd pattern = CHR ''*'');
          p = dropWhile (\<lambda>c. c = CHR ''*'') pattern;
          i = scanIdx p False
      in (star, take i p, drop i p))"

text \<open>\<open>getEsc\<close>: one possibly escaped character of a character class.\<close>

definition getEsc :: "string \<Rightarrow> match_error + (nat \<times> string)" where
  "getEsc chunk =
     (if chunk = [] \<or> hd chunk = CHR ''-'' \<or> hd chunk = CHR '']'' then Inl ErrBadPattern
      else (let chunk1 = (if hd chunk = CHR 0x5C then tl chunk else chunk) in
        if chunk1 = [] then Inl ErrBadPattern
        else (let r = fst (DecodeRuneInString chunk1);
                  n = snd (DecodeRuneInString chunk1);
                  nchunk = drop n chunk1
              in if (r = RuneError \<and> n = 1) \<or> nchunk = [] then Inl ErrBadPattern
                 else Inr (r, nchunk))))"

lemma getEsc_shorter:
  assumes "getEsc chunk = Inr (r, nchunk)"
  shows "length nchunk < length chunk"
proof -
  from assms have chunk: "chunk \<noteq> []"
    by (auto simp: getEsc_def)
  define chunk1 where "chunk1 = (if hd chunk = CHR 0x5C then tl chunk else chunk)"
  from assms have ne: "chunk1 \<noteq> []"
    by (auto simp: getEsc_def chunk1_def Let_def split: if_splits)
  from assms have "nchunk = drop (snd (DecodeRuneInString chunk1)) chunk1"
    by (auto simp: getEsc_def chunk1_def Let_def split: if_splits)
  moreover have "1 \<le> snd (DecodeRuneInString chunk1)"
    using DecodeRuneInString_size [OF ne] by simp
  moreover have "length chunk1 \<le> length chunk"
    by (simp add: chunk1_def)
  ultimately show ?thesis using ne by (cases chunk1) auto
qed

text \<open>The loop of \<open>matchChunk\<close> that parses the ranges of a character class and tests
  the rune \<open>r\<close> against each: the result is whether some range holds \<open>r\<close>, and the
  chunk after the closing bracket.\<close>

function classRanges ::
  "string \<Rightarrow> nat \<Rightarrow> bool \<Rightarrow> nat \<Rightarrow> match_error + (bool \<times> string)" where
  "classRanges chunk r match nrange =
     (if chunk \<noteq> [] \<and> hd chunk = CHR '']'' \<and> 0 < nrange then Inr (match, tl chunk)
      else (case getEsc chunk of
           Inl e \<Rightarrow> Inl e
         | Inr (lo, chunk1) \<Rightarrow>
             if chunk1 \<noteq> [] \<and> hd chunk1 = CHR ''-'' then
               (case getEsc (tl chunk1) of
                  Inl e \<Rightarrow> Inl e
                | Inr (hi, chunk2) \<Rightarrow>
                    classRanges chunk2 r (match \<or> (lo \<le> r \<and> r \<le> hi)) (nrange + 1))
             else classRanges chunk1 r (match \<or> (lo \<le> r \<and> r \<le> lo)) (nrange + 1)))"
  by pat_completeness auto
termination
proof (relation "measure (\<lambda>(chunk, r, match, nrange). length chunk)", goal_cases)
  case 1
  show ?case by simp
next
  case (2 chunk r match nrange x2 lo chunk1 x2a hi chunk2)
  then show ?case
    using getEsc_shorter [of chunk lo chunk1] getEsc_shorter [of "tl chunk1" hi chunk2]
    by (cases chunk1) auto
next
  case (3 chunk r match nrange x2 lo chunk1)
  then show ?case
    using getEsc_shorter [of chunk lo chunk1] by auto
qed

declare classRanges.simps [simp del]

lemma classRanges_shorter:
  "classRanges chunk r match nrange = Inr (m, rest) \<Longrightarrow> length rest < length chunk"
proof (induction chunk r match nrange rule: classRanges.induct)
  case (1 chunk r match nrange)
  show ?case
  proof (cases "chunk \<noteq> [] \<and> hd chunk = CHR '']'' \<and> 0 < nrange")
    case True
    with "1.prems" have "rest = tl chunk"
      by (simp add: classRanges.simps [of chunk])
    with True show ?thesis by (cases chunk) auto
  next
    case False
    with "1.prems" obtain lo chunk1 where g1: "getEsc chunk = Inr (lo, chunk1)"
      by (auto simp: classRanges.simps [of chunk] split: sum.splits)
    have l1: "length chunk1 < length chunk" using getEsc_shorter [OF g1] .
    show ?thesis
    proof (cases "chunk1 \<noteq> [] \<and> hd chunk1 = CHR ''-''")
      case dash: True
      with "1.prems" False g1 obtain hi chunk2 where g2: "getEsc (tl chunk1) = Inr (hi, chunk2)"
        and rec: "classRanges chunk2 r (match \<or> (lo \<le> r \<and> r \<le> hi)) (nrange + 1) = Inr (m, rest)"
        by (auto simp: classRanges.simps [of chunk] split: sum.splits)
      have "length rest < length chunk2"
        using "1.IH"(1) [OF False g1 refl dash g2 refl rec] .
      moreover have "length chunk2 < length (tl chunk1)" using getEsc_shorter [OF g2] .
      ultimately show ?thesis using l1 by simp
    next
      case nodash: False
      with "1.prems" False g1
      have rec: "classRanges chunk1 r (match \<or> (lo \<le> r \<and> r \<le> lo)) (nrange + 1) = Inr (m, rest)"
        by (auto simp: classRanges.simps [of chunk] split: sum.splits)
      have "length rest < length chunk1"
        using "1.IH"(2) [OF False g1 refl nodash rec] .
      then show ?thesis using l1 by simp
    qed
  qed
qed

text \<open>
  \<open>matchChunk\<close>: whether the chunk (literals, classes and \<open>?\<close>) matches the
  beginning of \<open>s\<close>; if so, the remainder of \<open>s\<close>. After the match has failed the
  loop goes on through the chunk, checking that it is well formed, and no longer reads
  \<open>s\<close>.
\<close>

function matchChunk_loop :: "string \<Rightarrow> string \<Rightarrow> bool \<Rightarrow> match_error + string option" where
  "matchChunk_loop chunk s failed =
     (if chunk = [] then (if failed then Inr None else Inr (Some s))
      else (let failed1 = (failed \<or> s = []); c = hd chunk; chunk1 = tl chunk in
        if c = CHR ''['' then
          (let r = (if failed1 then 0 else fst (DecodeRuneInString s));
               s1 = (if failed1 then s else drop (snd (DecodeRuneInString s)) s);
               negated = (chunk1 \<noteq> [] \<and> hd chunk1 = CHR ''^'');
               chunk2 = (if negated then tl chunk1 else chunk1)
           in case classRanges chunk2 r False 0 of
                Inl e \<Rightarrow> Inl e
              | Inr (match, chunk3) \<Rightarrow>
                  matchChunk_loop chunk3 s1 (failed1 \<or> match = negated))
        else if c = CHR ''?'' then
          (if failed1 then matchChunk_loop chunk1 s True
           else matchChunk_loop chunk1 (drop (snd (DecodeRuneInString s)) s)
                  (hd s = CHR ''/''))
        else if c = CHR 0x5C then
          (if chunk1 = [] then Inl ErrBadPattern
           else if failed1 then matchChunk_loop (tl chunk1) s True
           else matchChunk_loop (tl chunk1) (tl s) (hd chunk1 \<noteq> hd s))
        else
          (if failed1 then matchChunk_loop chunk1 s True
           else matchChunk_loop chunk1 (tl s) (c \<noteq> hd s))))"
  by pat_completeness auto
termination
proof (relation "measure (\<lambda>(chunk, s, failed). length chunk)", goal_cases)
  case 1
  show ?case by simp
next
  case (2 chunk s failed failed1 c chunk1 r s1 negated chunk2 x2 match chunk3)
  then have "length chunk3 < length chunk2"
    using classRanges_shorter [of chunk2 r False 0 match chunk3] by simp
  moreover have "length chunk2 \<le> length chunk1" using 2 by auto
  moreover have "length chunk1 < length chunk" using 2 by simp
  ultimately show ?case by simp
qed auto

declare matchChunk_loop.simps [simp del]

definition matchChunk :: "string \<Rightarrow> string \<Rightarrow> match_error + string option" where
  "matchChunk chunk s = matchChunk_loop chunk s False"

text \<open>The loop of \<open>Match\<close> that, for a chunk after a star, looks for a match skipping
  \<open>i + 1\<close> bytes of the name, for each \<open>i\<close> up to the first separator. With
  \<open>lastChunk\<close> (no pattern is left), only a match that uses up the name counts.\<close>

fun starSearch :: "string \<Rightarrow> bool \<Rightarrow> string \<Rightarrow> match_error + string option" where
  "starSearch chunk lastChunk [] = Inr None"
| "starSearch chunk lastChunk (c # rest) =
     (if c = CHR ''/'' then Inr None
      else (case matchChunk chunk rest of
              Inl e \<Rightarrow> Inl e
            | Inr None \<Rightarrow> starSearch chunk lastChunk rest
            | Inr (Some t) \<Rightarrow>
                if lastChunk \<and> t \<noteq> [] then starSearch chunk lastChunk rest
                else Inr (Some t)))"

lemma scanIdx_pos: "c \<noteq> CHR ''*'' \<Longrightarrow> 0 < scanIdx (c # cs) inrange"
  by (simp split: list.splits)

lemma scanChunk_shorter:
  assumes "pattern \<noteq> []" and "scanChunk pattern = (star, chunk, rest)"
  shows "length rest < length pattern"
proof -
  define p where "p = dropWhile (\<lambda>c. c = CHR ''*'') pattern"
  from assms(2) have rest: "rest = drop (scanIdx p False) p"
    by (simp add: scanChunk_def Let_def p_def)
  show ?thesis
  proof (cases "hd pattern = CHR ''*''")
    case True
    with assms(1) have "length p < length pattern"
      by (cases pattern) (auto simp: p_def intro: le_imp_less_Suc length_dropWhile_le)
    then show ?thesis using rest by simp
  next
    case False
    with assms(1) obtain c cs where pc: "pattern = c # cs" "c \<noteq> CHR ''*''"
      by (cases pattern) auto
    then have "p = c # cs" by (simp add: p_def)
    then show ?thesis using rest pc scanIdx_pos [of c cs False] by simp
  qed
qed

lemma scanChunk_shorter_sym:
  "(star, chunk, rest) = scanChunk pattern \<Longrightarrow> pattern \<noteq> [] \<Longrightarrow> length rest < length pattern"
  using scanChunk_shorter [of pattern star chunk rest] by simp

text \<open>\<open>filepath.Match(pattern, name)\<close>: \<open>Inr matched\<close>, or \<open>Inl ErrBadPattern\<close> when
  the match comes upon a malformed chunk. Where a chunk does not match and no star
  lets it move, the result is no match, with no error: what is left of the pattern
  is not read.\<close>

function filepath_Match :: "string \<Rightarrow> string \<Rightarrow> match_error + bool" where
  "filepath_Match pattern name =
     (if pattern = [] then Inr (name = [])
      else (case scanChunk pattern of
              (star, chunk, rest) \<Rightarrow>
                if star \<and> chunk = [] then Inr (CHR ''/'' \<notin> set name)
                else (case matchChunk chunk name of
                   Inl e \<Rightarrow> Inl e
                 | Inr m \<Rightarrow>
                     (case (case m of
                              Some t \<Rightarrow> if t = [] \<or> rest \<noteq> [] then Some t else None
                            | None \<Rightarrow> None) of
                        Some t \<Rightarrow> filepath_Match rest t
                      | None \<Rightarrow>
                          if star then
                            (case starSearch chunk (rest = []) name of
                               Inl e \<Rightarrow> Inl e
                             | Inr (Some t) \<Rightarrow> filepath_Match rest t
                             | Inr None \<Rightarrow> Inr False)
                          else Inr False))))"
  by pat_completeness auto
termination
proof (relation "measure (\<lambda>(pattern, name). length pattern)", goal_cases)
  case 1
  show ?case by simp
next
  case 2
  then show ?case by (auto dest: scanChunk_shorter_sym)
next
  case 3
  then show ?case by (auto dest: scanChunk_shorter_sym)
qed

declare filepath_Match.simps [simp del]

definition match_error_Error :: "match_error \<Rightarrow> string" where
  "match_error_Error e = ''syntax error in pattern''"

section \<open>Package email: the data model\<close>

text \<open>Package config: one policy per direction, the SMTP settings. \<open>PreferHTMLBody\<close>
  is the setting the consumer loop of \<open>main\<close> reads.\<close>

record Policy =
  Allow :: "string list"
  Deny :: "string list"
  DefaultAction :: string

record AuthConfig =
  UserDatabase :: string
  Enabled :: bool

record SMTPConfig =
  ListenAddr :: string
  Auth :: AuthConfig
  Policies_From :: Policy
  Policies_To :: Policy
  PreferHTMLBody :: bool

definition PolicyAllow :: string where
  "PolicyAllow = ''allow''"

definition PolicyDeny :: string where
  "PolicyDeny = ''deny''"

record EmailBody =
  HTML :: string
  Text :: string

record email =
  Body :: EmailBody
  From :: string
  Subject :: string
  To :: "string list"

record user =
  username :: string
  passwordHash :: string

text \<open>A session. \<open>emailChan\<close> is \<open>None\<close> for a nil channel; otherwise it holds the
  messages sent on the channel and not yet received, oldest first. The channel of the
  code is bounded: a send on a full channel waits for the consumer, and the model takes
  up the send where it completes.\<close>

record session =
  authenticated :: bool
  cfg :: SMTPConfig
  emailChan :: "email list option"
  requireAuth :: bool
  userDb :: "string \<rightharpoonup> user"
  remoteAddr :: string

text \<open>The errors a handler returns to the SMTP library: its two sentinels, an
  \<open>SMTPError\<close> with a code and a message, and the error of a failed read.\<close>

datatype error = ErrAuthFailed | ErrAuthRequired | SMTPError nat string | ReadError string

text \<open>What \<open>parsemail.Parse\<close> returns, as far as \<open>Data\<close> reads it.\<close>

record Address =
  Name :: string
  Address :: string

record Email =
  Email_From :: "Address list"
  Email_To :: "Address list"
  Email_Subject :: string
  HTMLBody :: string
  TextBody :: string

section \<open>The credential store: \<open>loadUserDatabase\<close>\<close>

text \<open>
  What the file system and \<open>bufio.Scanner\<close> give \<open>loadUserDatabase\<close>: either
  \<open>os.Open\<close> fails, or the scanner delivers lines (the values of \<open>scanner.Text()\<close>, in
  order) and then \<open>scanner.Err()\<close> is an error or nil.
\<close>

datatype file_read = OpenFails string | Scanned "string list" "string option"

datatype load_error = OpenError string string | ScanError string string

text \<open>The body of the scan loop for one line: the store and the log after it.\<close>

definition load_line ::
  "string \<Rightarrow> nat \<Rightarrow> string \<Rightarrow> (string \<rightharpoonup> user) \<times> log_entry list
     \<Rightarrow> (string \<rightharpoonup> user) \<times> log_entry list" where
  "load_line filePath lineNum raw acc =
     (let users = fst acc; logs = snd acc; line = TrimSpace raw in
      if line = [] \<or> HasPrefix line ''#'' then (users, logs)
      else (let parts = SplitN_2 line (CHR '':'') in
        if length parts \<noteq> 2 then
          (users, logs @ [Warnf (''Skipping malformed line %d in user database file '%s': '%s''
                                   @ [CHR 0x27])
                            [ArgInt lineNum, ArgString filePath, ArgString line]])
        else (let username = parts ! 0; passwordHash = parts ! 1 in
          (users(username \<mapsto> \<lparr>username = username, passwordHash = passwordHash\<rparr>), logs))))"

fun load_lines ::
  "string \<Rightarrow> nat \<Rightarrow> string list \<Rightarrow> (string \<rightharpoonup> user) \<times> log_entry list
     \<Rightarrow> (string \<rightharpoonup> user) \<times> log_entry list" where
  "load_lines filePath lineNum [] acc = acc"
| "load_lines filePath lineNum (raw # rest) acc =
     load_lines filePath (lineNum + 1) rest (load_line filePath (lineNum + 1) raw acc)"

definition loadUserDatabase ::
  "(string \<Rightarrow> file_read) \<Rightarrow> string \<Rightarrow> (load_error + (string \<rightharpoonup> user)) \<times> log_entry list" where
  "loadUserDatabase fs filePath =
     (case fs filePath of
        OpenFails err \<Rightarrow> (Inl (OpenError filePath err), [])
      | Scanned lines scanErr \<Rightarrow>
          (let (users, logs) = load_lines filePath 0 lines (Map.empty, []) in
           case scanErr of
             Some err \<Rightarrow> (Inl (ScanError filePath err), logs)
           | None \<Rightarrow> (Inr users, logs)))"

text \<open>
  \<open>bufio.Scanner\<close> with its default split function \<open>ScanLines\<close> and its default
  buffer, on a file that is read without error: the file's lines, each without its
  end-of-line marker (a newline, with one carriage return before it), and no empty
  last line. A line that does not fit the buffer of 64 KiB together with its newline
  stops the scan with \<open>ErrTooLong\<close>.
\<close>

definition dropCR :: "string \<Rightarrow> string" where
  "dropCR data = (if data \<noteq> [] \<and> last data = CHR 0x0D then butlast data else data)"

definition MaxScanTokenSize :: nat where
  "MaxScanTokenSize = 64 * 1024"

function ScanLines :: "string \<Rightarrow> string list \<times> string option" where
  "ScanLines data =
     (if data = [] then ([], None)
      else (let line = takeWhile (\<lambda>c. c \<noteq> CHR 0x0A) data;
                rest = drop (length line + 1) data
            in if MaxScanTokenSize \<le> length line then ([], Some ''bufio.Scanner: token too long'')
               else (dropCR line # fst (ScanLines rest), snd (ScanLines rest))))"
  by pat_completeness auto
termination
  by (relation "measure length") auto

declare ScanLines.simps [simp del]

definition file_with_content :: "string \<Rightarrow> file_read" where
  "file_with_content data = Scanned (fst (ScanLines data)) (snd (ScanLines data))"

section \<open>The address policy: \<open>isAddressAllowed\<close>\<close>

text \<open>The loop over the deny list: whether a pattern matched (the function then
  returns false), and the log. A pattern in error is logged and passed over.\<close>

fun denyListLoop :: "string \<Rightarrow> string list \<Rightarrow> bool \<times> log_entry list" where
  "denyListLoop address [] = (False, [])"
| "denyListLoop address (pattern # rest) =
     (case filepath_Match pattern address of
        Inl err \<Rightarrow>
          (fst (denyListLoop address rest),
           Errorf ''Invalid glob pattern '%s' in deny list: %v''
             [ArgString pattern, ArgString (match_error_Error err)]
           # snd (denyListLoop address rest))
      | Inr matched \<Rightarrow>
          if matched then
            (True, [Debugf ''Address '%s' matched deny pattern '%s', rejecting''
                      [ArgString address, ArgString pattern]])
          else denyListLoop address rest)"

text \<open>The loop over the allow list, likewise.\<close>

fun allowListLoop :: "string \<Rightarrow> string list \<Rightarrow> bool \<times> log_entry list" where
  "allowListLoop address [] = (False, [])"
| "allowListLoop address (pattern # rest) =
     (case filepath_Match pattern address of
        Inl err \<Rightarrow>
          (fst (allowListLoop address rest),
           Errorf ''Invalid glob pattern '%s' in allow list: %v''
             [ArgString pattern, ArgString (match_error_Error err)]
           # snd (allowListLoop address rest))
      | Inr matched \<Rightarrow>
          if matched then
            (True, [Debugf ''Address '%s' matched allow pattern '%s', accepting''
                      [ArgString address, ArgString pattern]])
          else allowListLoop address rest)"

definition isAddressAllowed ::
  "string \<Rightarrow> string list \<Rightarrow> string list \<Rightarrow> string \<Rightarrow> bool \<times> log_entry list" where
  "isAddressAllowed address allowList denyList defaultPolicy =
     (let log0 = [Debugf (''Checking address '%s' against allow list %v and deny list %v with default policy '%s''
                            @ [CHR 0x27])
                    [ArgString address, ArgStrings allowList, ArgStrings denyList,
                     ArgString defaultPolicy]];
          denied = denyListLoop address denyList
      in if fst denied then (False, log0 @ snd denied)
         else (let allowed = allowListLoop address allowList;
                   log1 = log0 @ snd denied @ snd allowed
               in if fst allowed then (True, log1)
                  else if defaultPolicy = PolicyAllow then
                    (True, log1 @ [Debugf (''Default policy is 'allow', accepting address '%s''
                                             @ [CHR 0x27])
                                     [ArgString address]])
                  else if defaultPolicy = PolicyDeny then
                    (False, log1 @ [Debugf (''Default policy is 'deny', rejecting address '%s''
                                              @ [CHR 0x27])
                                      [ArgString address]])
                  else
                    (False, log1 @ [Debugf (''Unrecognized default policy '%s', rejecting address '%s''
                                              @ [CHR 0x27])
                                      [ArgString defaultPolicy, ArgString address]])))"

section \<open>The mail session\<close>

text \<open>
  Each handler returns what it returns to the SMTP library (\<open>None\<close> for a nil
  error), the session after it where the handler can change the session, and its log.
  The option arguments of \<open>Mail\<close> and \<open>Rcpt\<close>, and the mechanism name of \<open>Auth\<close>, are
  not read by the code and are left out.
\<close>

definition NewSession :: "SMTPConfig \<Rightarrow> email list option \<Rightarrow> (string \<rightharpoonup> user) \<Rightarrow> string \<Rightarrow> session" where
  "NewSession bkd_cfg bkd_emailChan bkd_userDb remote =
     \<lparr>authenticated = False, cfg = bkd_cfg, emailChan = bkd_emailChan,
      requireAuth = Enabled (Auth bkd_cfg), userDb = bkd_userDb, remoteAddr = remote\<rparr>"

definition session_AuthMechanisms :: "session \<Rightarrow> string list" where
  "session_AuthMechanisms s = (if requireAuth s then [''PLAIN''] else [])"

text \<open>\<open>Auth\<close>: the authenticator which the handler gives to the SASL PLAIN server, run
  on the identity, user name and password of a client's response.
  \<open>CompareHashAndPassword hash password\<close> is bcrypt's comparison: \<open>None\<close> when the
  password matches the hash, an error otherwise.\<close>

definition session_Auth ::
  "(string \<Rightarrow> string \<Rightarrow> string option) \<Rightarrow> session \<Rightarrow> string \<Rightarrow> string \<Rightarrow> string
     \<Rightarrow> error option \<times> session \<times> log_entry list" where
  "session_Auth CompareHashAndPassword s identity usern password =
     (let log0 = [Debugf ''Authenticating user '%s' from %s''
                    [ArgString usern, ArgString (remoteAddr s)]] in
      case userDb s usern of
        None \<Rightarrow>
          (Some ErrAuthFailed, s,
           log0 @ [Warnf ''Authentication failed for user '%s' (user not found) from %s''
                     [ArgString usern, ArgString (remoteAddr s)]])
      | Some u \<Rightarrow>
          (case CompareHashAndPassword (passwordHash u) password of
             Some err \<Rightarrow>
               (Some ErrAuthFailed, s,
                log0 @ [Warnf ''Authentication failed for user '%s' (password mismatch) from %s''
                          [ArgString usern, ArgString (remoteAddr s)]])
           | None \<Rightarrow>
               (None, s\<lparr>authenticated := True\<rparr>,
                log0 @ [Debugf ''User '%s' authenticated successfully from %s''
                          [ArgString usern, ArgString (remoteAddr s)]])))"

definition auth_rejected_log :: "session \<Rightarrow> log_entry" where
  "auth_rejected_log s =
     Warnf ''There was an attempt to send an email without authentication from %s, rejecting''
       [ArgString (remoteAddr s)]"

definition session_Mail :: "session \<Rightarrow> string \<Rightarrow> error option \<times> log_entry list" where
  "session_Mail s from =
     (if requireAuth s \<and> \<not> authenticated s then
        (Some ErrAuthRequired, [auth_rejected_log s])
      else (let log0 = [Debugf (''Checking if sender '%s' is allowed or denied'') [ArgString from]];
                allowed = isAddressAllowed from (Allow (Policies_From (cfg s)))
                            (Deny (Policies_From (cfg s))) (DefaultAction (Policies_From (cfg s)))
            in if \<not> fst allowed then
                 (Some (SMTPError 550 ''Sender not allowed''),
                  log0 @ snd allowed
                    @ [Warnf ''Sender '%s' rejected by policy'' [ArgString from]])
               else (None, log0 @ snd allowed)))"

definition session_Rcpt :: "session \<Rightarrow> string \<Rightarrow> error option \<times> log_entry list" where
  "session_Rcpt s to =
     (if requireAuth s \<and> \<not> authenticated s then
        (Some ErrAuthRequired, [auth_rejected_log s])
      else (let log0 = [Debugf (''Checking if recipient '%s' is allowed or denied'') [ArgString to]];
                allowed = isAddressAllowed to (Allow (Policies_To (cfg s)))
                            (Deny (Policies_To (cfg s))) (DefaultAction (Policies_To (cfg s)))
            in if \<not> fst allowed then
                 (Some (SMTPError 550 ''Recipient not allowed''),
                  log0 @ snd allowed
                    @ [Warnf ''Recipient '%s' rejected by policy'' [ArgString to]])
               else (None, log0 @ snd allowed)))"

text \<open>\<open>Data\<close>. \<open>r\<close> is what \<open>io.ReadAll\<close> gets from the reader: the bytes of the
  payload, or an error. \<open>Parse\<close> is \<open>parsemail.Parse\<close>: the parsed message, or an
  error.\<close>

definition session_Data ::
  "(string \<Rightarrow> string + Email) \<Rightarrow> session \<Rightarrow> string + string
     \<Rightarrow> error option \<times> session \<times> log_entry list" where
  "session_Data Parse s r =
     (if requireAuth s \<and> \<not> authenticated s then
        (Some ErrAuthRequired, s, [auth_rejected_log s])
      else (case r of
        Inl err \<Rightarrow> (Some (ReadError err), s, [])
      | Inr b \<Rightarrow>
          (let log0 = [Tracef ''Raw email:\<newline>%s'' [ArgString b]] in
           case Parse b of
             Inl err \<Rightarrow> (None, s, log0 @ [Errorf ''Error parsing email: %v'' [ArgString err]])
           | Inr emailParsed \<Rightarrow>
               if length (Email_From emailParsed) = 0 then (None, s, log0)
               else (let from = Address (Email_From emailParsed ! 0);
                         to = map Address (Email_To emailParsed)
                     in if length to = 0 then
                          (None, s,
                           log0 @ [Warnf ''Email from '%s' has no recipient; skipping''
                                     [ArgString from]])
                        else (let email = \<lparr>Body = \<lparr>HTML = HTMLBody emailParsed,
                                                       Text = TextBody emailParsed\<rparr>,
                                             From = from,
                                             Subject = Email_Subject emailParsed,
                                             To = to\<rparr>
                              in case emailChan s of
                                   Some queue \<Rightarrow>
                                     (None, s\<lparr>emailChan := Some (queue @ [email])\<rparr>, log0)
                                 | None \<Rightarrow> (None, s, log0))))))"

definition session_Reset :: "session \<Rightarrow> session" where
  "session_Reset s = s"

definition session_Logout :: "session \<Rightarrow> error option" where
  "session_Logout s = None"

text \<open>The commands of a client which reach the handlers, and a session run on a
  sequence of them: the replies, in order, and the session and the log at the end.\<close>

datatype command =
  AUTH string string string
| MAIL string
| RCPT string
| DATA "string + string"
| RSET
| QUIT

fun handle ::
  "(string \<Rightarrow> string \<Rightarrow> string option) \<Rightarrow> (string \<Rightarrow> string + Email) \<Rightarrow> session \<Rightarrow> command
     \<Rightarrow> error option \<times> session \<times> log_entry list" where
  "handle CompareHashAndPassword Parse s (AUTH identity usern password) =
     session_Auth CompareHashAndPassword s identity usern password"
| "handle CompareHashAndPassword Parse s (MAIL from) =
     (fst (session_Mail s from), s, snd (session_Mail s from))"
| "handle CompareHashAndPassword Parse s (RCPT to) =
     (fst (session_Rcpt s to), s, snd (session_Rcpt s to))"
| "handle CompareHashAndPassword Parse s (DATA r) = session_Data Parse s r"
| "handle CompareHashAndPassword Parse s RSET = (None, session_Reset s, [])"
| "handle CompareHashAndPassword Parse s QUIT = (session_Logout s, s, [])"

fun run ::
  "(string \<Rightarrow> string \<Rightarrow> string option) \<Rightarrow> (string \<Rightarrow> string + Email) \<Rightarrow> session
     \<Rightarrow> command list \<Rightarrow> error option list \<times> session \<times> log_entry list" where
  "run CompareHashAndPassword Parse s [] = ([], s, [])"
| "run CompareHashAndPassword Parse s (c # cs) =
     (case handle CompareHashAndPassword Parse s c of
        (reply, s1, log1) \<Rightarrow>
          (case run CompareHashAndPassword Parse s1 cs of
             (replies, s2, log2) \<Rightarrow> (reply # replies, s2, log1 @ log2)))"

section \<open>Package slacker: the notifier\<close>

text \<open>
  The Slack client and the two converters are libraries. The client's calls go to
  the network: each takes the state of the world outside the program and returns its
  answer (\<open>Inl\<close> an error) with the state after the call. \<open>SendMessage\<close> returns its
  error (\<open>None\<close> for nil), the client calls it made, in order, its log and the state
  of the world after it.
\<close>

datatype Block = SectionBlock string | DividerBlock | ConvertedBlock string

record User =
  User_ID :: string
  User_Name :: string

record 'w Client =
  GetUserByEmail :: "string \<Rightarrow> 'w \<Rightarrow> (string + User) \<times> 'w"
  OpenConversation :: "string list \<Rightarrow> 'w \<Rightarrow> (string + string) \<times> 'w"
  PostMessage :: "string \<Rightarrow> Block list \<Rightarrow> 'w \<Rightarrow> string option \<times> 'w"

record Converter =
  ConvertString :: "string \<Rightarrow> string + string"
  ConvertMarkdownTextToBlocks :: "string \<Rightarrow> string + Block list"

datatype api_call =
  CallGetUserByEmail string
| CallOpenConversation "string list"
| CallPostMessage string "Block list"

datatype send_error =
  ErrUserNotFound string string
| ErrUserDM string string
| ErrSendMessage string string

fun send_error_Error :: "send_error \<Rightarrow> string" where
  "send_error_Error (ErrUserNotFound u err) =
     ''error finding user by email ''  @ [CHR 0x27] @ u @ [CHR 0x27] @ '': '' @ err"
| "send_error_Error (ErrUserDM u err) =
     ''error opening DM with user '' @ [CHR 0x27] @ u @ [CHR 0x27] @ '': '' @ err"
| "send_error_Error (ErrSendMessage u err) =
     ''error sending message to user '' @ [CHR 0x27] @ u @ [CHR 0x27] @ '': '' @ err"

text \<open>\<open>errors.As(err, &sendErr)\<close> for a \<open>*ErrSendMessage\<close> target: none of the three
  error types unwraps, so it holds for an \<open>ErrSendMessage\<close> only.\<close>

fun is_ErrSendMessage :: "send_error \<Rightarrow> bool" where
  "is_ErrSendMessage (ErrSendMessage u err) = True"
| "is_ErrSendMessage (ErrUserNotFound u err) = False"
| "is_ErrSendMessage (ErrUserDM u err) = False"

definition htmlToMarkdown :: "Converter \<Rightarrow> string \<Rightarrow> (string + string) \<times> log_entry list" where
  "htmlToMarkdown c message =
     (ConvertString c message, [Tracef ''Slack: Converting HTML message to markdown'' []])"

definition htmlToSlack :: "Converter \<Rightarrow> string \<Rightarrow> Block list \<times> log_entry list" where
  "htmlToSlack c message =
     (case htmlToMarkdown c message of
        (Inl err, log0) \<Rightarrow> ([SectionBlock message], log0)
      | (Inr markdown, log0) \<Rightarrow>
          (let log1 = log0 @ [Tracef ''Slack: Converting markdown message to Slack format'' []] in
           case ConvertMarkdownTextToBlocks c markdown of
             Inl err \<Rightarrow> ([SectionBlock message], log1)
           | Inr blocks \<Rightarrow> (blocks, log1)))"

definition textToSlack :: "string \<Rightarrow> Block list \<times> log_entry list" where
  "textToSlack message =
     ([SectionBlock message], [Tracef ''Slack: Converting text message to Slack format'' []])"

definition SendMessage ::
  "'w Client \<Rightarrow> Converter \<Rightarrow> string \<Rightarrow> string \<Rightarrow> string list \<Rightarrow> string \<Rightarrow> EmailBody \<Rightarrow> bool
     \<Rightarrow> 'w \<Rightarrow> send_error option \<times> api_call list \<times> log_entry list \<times> 'w" where
  "SendMessage client c userEmail sender to subject body preferHTMLBody w =
     (case GetUserByEmail client userEmail w of
        (Inl err, w1) \<Rightarrow>
          (Some (ErrUserNotFound userEmail err), [CallGetUserByEmail userEmail],
           [Warnf ''Slack: Error finding user by email '%s': %v''
              [ArgString userEmail, ArgString err]], w1)
      | (Inr user, w1) \<Rightarrow>
          (let calls1 = [CallGetUserByEmail userEmail];
               log1 = [Debugf (''Slack: Found matching user for email '%s': '%s'' @ [CHR 0x27])
                         [ArgString userEmail, ArgString (User_Name user)]];
               empty = (if preferHTMLBody then TrimSpace (HTML body) = []
                        else TrimSpace (Text body) = [])
           in if empty then
                (Some (ErrSendMessage (User_ID user)
                         (if preferHTMLBody then ''empty HTML body'' else ''empty plain text body'')),
                 calls1, log1, w1)
              else
                (let converted = (if preferHTMLBody then htmlToSlack c (HTML body)
                                  else textToSlack (Text body));
                     bodyBlocks = fst converted;
                     log2 = log1
                       @ [if preferHTMLBody
                          then Debugf ''Slack: Converting HTML message to Slack format'' []
                          else Debugf ''Slack: Using plain text message'' []]
                       @ snd converted;
                     dividerBlock = DividerBlock;
                     headerBlock = SectionBlock
                       (''*New notification from:* '' @ sender @ ''\<newline>*Subject:* ''
                          @ Join to '', '');
                     calls2 = calls1 @ [CallOpenConversation [User_ID user]]
                 in case OpenConversation client [User_ID user] w1 of
                      (Inl err, w2) \<Rightarrow>
                        (Some (ErrUserDM (User_ID user) err), calls2,
                         log2 @ [Errorf ''Slack: Error opening DM with user '%s': %v''
                                   [ArgString (User_ID user), ArgString err]], w2)
                    | (Inr channel, w2) \<Rightarrow>
                        (let log3 = log2
                               @ [Debugf (''Slack: Opened DM channel '%s' with user '%s''
                                            @ [CHR 0x27])
                                    [ArgString channel, ArgString (User_Name user)],
                                  Debugf (''Slack: Sending message to user '%s'' @ [CHR 0x27])
                                    [ArgString (User_ID user)]];
                             msgBlocks = [dividerBlock] @ [headerBlock] @ bodyBlocks
                                           @ [dividerBlock];
                             calls3 = calls2 @ [CallPostMessage channel msgBlocks]
                         in case PostMessage client channel msgBlocks w2 of
                              (Some err, w3) \<Rightarrow>
                                (Some (ErrSendMessage (User_ID user) err), calls3,
                                 log3 @ [Errorf ''Slack: Error sending message to user '%s': %v''
                                           [ArgString (User_ID user), ArgString err]], w3)
                            | (None, w3) \<Rightarrow>
                                (None, calls3,
                                 log3 @ [Infof ''Slack: Successfully sent message from '%s' to Slack user '%s' ('%s')''
                                           [ArgString sender, ArgString (User_Name user),
                                            ArgString userEmail]], w3)))))"

section \<open>The consumer loop of \<open>main\<close>\<close>

text \<open>
  The loop sends each message of the channel to each of its recipients through the
  notifier. A notifier takes the arguments of \<open>SendMessage\<close> and the state of the
  world, and returns its error and the state after the call; \<open>slackService\<close> is the
  notifier which the program runs with. Besides the state and the log, the model
  returns the calls made to the notifier, in order: for each, the recipient, the value
  passed for \<open>preferHTMLBody\<close> and what the notifier returned.
\<close>

type_synonym 'w notifier =
  "string \<Rightarrow> string \<Rightarrow> string list \<Rightarrow> string \<Rightarrow> EmailBody \<Rightarrow> bool \<Rightarrow> 'w \<Rightarrow> send_error option \<times> 'w"

type_synonym attempt = "string \<times> bool \<times> send_error option"

definition slackService :: "'w Client \<Rightarrow> Converter \<Rightarrow> 'w notifier" where
  "slackService client c userEmail sender to subject body preferHTMLBody w =
     (case SendMessage client c userEmail sender to subject body preferHTMLBody w of
        (err, calls, logs, w1) \<Rightarrow> (err, w1))"

text \<open>The body of the loop over the recipients, for one recipient.\<close>

definition deliver ::
  "'w notifier \<Rightarrow> bool \<Rightarrow> email \<Rightarrow> string \<Rightarrow> 'w \<Rightarrow> 'w \<times> attempt list \<times> log_entry list" where
  "deliver send preferHTML e recipient w =
     (case send recipient (From e) (To e) (Subject e) (Body e) preferHTML w of
        (None, w1) \<Rightarrow> (w1, [(recipient, preferHTML, None)], [])
      | (Some err, w1) \<Rightarrow>
          (let first = (recipient, preferHTML, Some err);
               log1 = [Warnf ''Failed to send message to '%s': %v''
                         [ArgString recipient, ArgString (send_error_Error err)]]
           in if is_ErrSendMessage err \<and> preferHTML then
                (case send recipient (From e) (To e) (Subject e) (Body e) True w1 of
                   (None, w2) \<Rightarrow>
                     (w2, [first, (recipient, True, None)],
                      log1 @ [Warnf ''Retrying with plain text'' []])
                 | (Some err2, w2) \<Rightarrow>
                     (w2, [first, (recipient, True, Some err2)],
                      log1 @ [Warnf ''Retrying with plain text'' [],
                              Errorf ''Failed to send message to '%s': %v''
                                [ArgString recipient, ArgString (send_error_Error err2)]]))
              else (w1, [first], log1)))"

fun deliver_all ::
  "'w notifier \<Rightarrow> bool \<Rightarrow> email \<Rightarrow> string list \<Rightarrow> 'w \<Rightarrow> 'w \<times> attempt list \<times> log_entry list" where
  "deliver_all send preferHTML e [] w = (w, [], [])"
| "deliver_all send preferHTML e (recipient # rest) w =
     (case deliver send preferHTML e recipient w of
        (w1, attempts1, log1) \<Rightarrow>
          (case deliver_all send preferHTML e rest w1 of
             (w2, attempts2, log2) \<Rightarrow> (w2, attempts1 @ attempts2, log1 @ log2)))"

text \<open>The body of the loop over the channel, for one message.\<close>

definition forward ::
  "'w notifier \<Rightarrow> bool \<Rightarrow> email \<Rightarrow> 'w \<Rightarrow> 'w \<times> attempt list \<times> log_entry list" where
  "forward send preferHTML e w =
     (let log0 = [Debugf (''Received email from %s to %v with subject: '%s'' @ [CHR 0x27])
                    [ArgString (From e), ArgStrings (To e), ArgString (Subject e)]] in
      if length (To e) = 0 then
        (w, [], log0 @ [Infof ''Email from %s has no recipient; skipping'' [ArgString (From e)]])
      else (case deliver_all send preferHTML e (To e) w of
              (w1, attempts, log1) \<Rightarrow> (w1, attempts, log0 @ log1)))"

fun consumer_loop ::
  "'w notifier \<Rightarrow> bool \<Rightarrow> email list \<Rightarrow> 'w \<Rightarrow> 'w \<times> attempt list \<times> log_entry list" where
  "consumer_loop send preferHTML [] w = (w, [], [])"
| "consumer_loop send preferHTML (e # rest) w =
     (case forward send preferHTML e w of
        (w1, attempts1, log1) \<Rightarrow>
          (case consumer_loop send preferHTML rest w1 of
             (w2, attempts2, log2) \<Rightarrow> (w2, attempts1 @ attempts2, log1 @ log2)))"

section \<open>Notions of the specification\<close>

text \<open>A string is empty or holds white space only, as \<open>strings.TrimSpace\<close> reads
  white space: every rune of it has Unicode's White Space property.\<close>

function whitespace_only :: "string \<Rightarrow> bool" where
  "whitespace_only s =
     (if s = [] then True
      else if IsSpace (fst (DecodeRuneInString s))
        then whitespace_only (drop (snd (DecodeRuneInString s)) s)
        else False)"
  by pat_completeness auto
termination
proof (relation "measure length", goal_cases)
  case 1
  show ?case by simp
next
  case (2 s)
  then show ?case using DecodeRuneInString_size [of s] by simp
qed

declare whitespace_only.simps [simp del]

text \<open>The kinds of line of a user database, as the specification words them: a line is
  read with the white space at its ends removed; it is blank when nothing is left, a
  comment when it begins with \<open>#\<close>, well formed when it is neither and splits into two
  fields on its first colon (the user name and the password hash), malformed
  otherwise.\<close>

definition blank_line :: "string \<Rightarrow> bool" where
  "blank_line l = (TrimSpace l = [])"

definition comment_line :: "string \<Rightarrow> bool" where
  "comment_line l = (\<not> blank_line l \<and> hd (TrimSpace l) = CHR ''#'')"

definition wellformed_line :: "string \<Rightarrow> bool" where
  "wellformed_line l = (\<not> blank_line l \<and> \<not> comment_line l \<and> CHR '':'' \<in> set (TrimSpace l))"

definition malformed_line :: "string \<Rightarrow> bool" where
  "malformed_line l = (\<not> blank_line l \<and> \<not> comment_line l \<and> CHR '':'' \<notin> set (TrimSpace l))"

definition line_username :: "string \<Rightarrow> string" where
  "line_username l = takeWhile (\<lambda>c. c \<noteq> CHR '':'') (TrimSpace l)"

definition line_hash :: "string \<Rightarrow> string" where
  "line_hash l = tl (dropWhile (\<lambda>c. c \<noteq> CHR '':'') (TrimSpace l))"

definition line_user :: "string \<Rightarrow> user" where
  "line_user l = \<lparr>username = line_username l, passwordHash = line_hash l\<rparr>"

text \<open>The warnings for the malformed lines among \<open>lines\<close>, where the first of them is
  line \<open>n + 1\<close> of the file.\<close>

fun malformed_warnings :: "string \<Rightarrow> nat \<Rightarrow> string list \<Rightarrow> log_entry list" where
  "malformed_warnings filePath n [] = []"
| "malformed_warnings filePath n (l # ls) =
     (if malformed_line l
      then [Warnf (''Skipping malformed line %d in user database file '%s': '%s''
                     @ [CHR 0x27])
              [ArgInt (n + 1), ArgString filePath, ArgString (TrimSpace l)]]
      else [])
     @ malformed_warnings filePath (n + 1) ls"

section \<open>Example inputs\<close>

text \<open>A configuration, a session, a password check, a parser, a Slack client, a message
  and a user database on which the theorems below are instantiated.\<close>

definition example_cfg :: SMTPConfig where
  "example_cfg =
     \<lparr>ListenAddr = ''localhost:25'',
      Auth = \<lparr>UserDatabase = ''users.db'', Enabled = True\<rparr>,
      Policies_From = \<lparr>Allow = [], Deny = [''bad@*''], DefaultAction = ''allow''\<rparr>,
      Policies_To = \<lparr>Allow = [''ok@x.io''], Deny = [], DefaultAction = ''deny''\<rparr>,
      PreferHTMLBody = True\<rparr>"

definition example_userDb :: "string \<rightharpoonup> user" where
  "example_userDb = [''u'' \<mapsto> \<lparr>username = ''u'', passwordHash = ''h''\<rparr>]"

definition example_session :: "bool \<Rightarrow> session" where
  "example_session auth =
     (NewSession example_cfg (Some []) example_userDb ''127.0.0.1:4321'')\<lparr>authenticated := auth\<rparr>"

definition example_bcrypt :: "string \<Rightarrow> string \<Rightarrow> string option" where
  "example_bcrypt hash password =
     (if hash = ''h'' \<and> password = ''pw'' then None else Some ''mismatch'')"

definition example_Parse :: "string \<Rightarrow> string + Email" where
  "example_Parse b =
     (if b = ''garbage'' then Inl ''malformed header line''
      else Inr \<lparr>Email_From = (if b = ''no-from'' \<or> b = ''nothing'' then []
                            else [\<lparr>Name = ''F'', Address = ''f@x.io''\<rparr>,
                                  \<lparr>Name = ''G'', Address = ''g@x.io''\<rparr>]),
               Email_To = (if b = ''no-to'' \<or> b = ''nothing'' then []
                          else [\<lparr>Name = ''N'', Address = ''no@x.io''\<rparr>,
                                \<lparr>Name = ''O'', Address = ''ok@x.io''\<rparr>]),
               Email_Subject = ''hello'', HTMLBody = ''<p>hi</p>'', TextBody = ''hi''\<rparr>)"

definition example_client :: "string list \<Rightarrow> unit Client" where
  "example_client known =
     \<lparr>GetUserByEmail = (\<lambda>userEmail w.
        (if userEmail \<in> set known then Inr \<lparr>User_ID = ''U1'', User_Name = ''user''\<rparr>
         else Inl ''users_not_found'', w)),
      OpenConversation = (\<lambda>users w. (Inr ''D1'', w)),
      PostMessage = (\<lambda>channel blocks w. (None, w))\<rparr>"

definition example_converter :: Converter where
  "example_converter =
     \<lparr>ConvertString = (\<lambda>message. Inr message),
      ConvertMarkdownTextToBlocks = (\<lambda>markdown. Inr [ConvertedBlock markdown])\<rparr>"

definition example_email :: "string \<Rightarrow> email" where
  "example_email html =
     \<lparr>Body = \<lparr>HTML = html, Text = ''hi''\<rparr>, From = ''f@x.io'', Subject = ''hello'',
      To = [''a@x.io'']\<rparr>"

definition example_users_db :: string where
  "example_users_db =
     ''# users\<newline>\<newline>u1:h1\<newline>broken\<newline> u2:h:2 '' @ [CHR 0x0D] @ ''\<newline>u1:h3''"

section \<open>Properties of the address policy\<close>

lemmas Match_eval =
  filepath_Match.simps matchChunk_def matchChunk_loop.simps
  classRanges.simps scanChunk_def getEsc_def DecodeRuneInString_def utf8_first_def
  RuneError_def Let_def

lemma denyListLoop_matched:
  "fst (denyListLoop address denyList)
     = (\<exists>pattern \<in> set denyList. filepath_Match pattern address = Inr True)"
  by (induction denyList) (auto split: sum.splits)

lemma allowListLoop_matched:
  "fst (allowListLoop address allowList)
     = (\<exists>pattern \<in> set allowList. filepath_Match pattern address = Inr True)"
  by (induction allowList) (auto split: sum.splits)

text \<open>
  C2. The documentation of the repository says that the matching of an address
  against the allow and deny patterns is case-insensitive. The code gives the address
  and the pattern to \<open>filepath.Match\<close> as they are, and \<open>filepath.Match\<close> compares
  literal characters byte for byte: with the allow pattern \<open>bob@x.io\<close> and the default
  action deny, the address \<open>bob@x.io\<close> is accepted and the same address written
  \<open>Bob@x.io\<close> is rejected.
\<close>

theorem isAddressAllowed_case_sensitive:
  "fst (isAddressAllowed ''bob@x.io'' [''bob@x.io''] [] ''deny'') = True
   \<and> fst (isAddressAllowed ''Bob@x.io'' [''bob@x.io''] [] ''deny'') = False
   \<and> fst (isAddressAllowed ''bob@x.io'' [] [''bob@x.io''] ''allow'') = False
   \<and> fst (isAddressAllowed ''Bob@x.io'' [] [''bob@x.io''] ''allow'') = True"
  by (simp add: isAddressAllowed_def PolicyAllow_def PolicyDeny_def Match_eval)

text \<open>
  C3. Deny precedence: for every address, allow list, deny list and default action, if
  some pattern of the deny list matches the address, \<open>isAddressAllowed\<close> returns false,
  whatever the allow list holds (also a pattern that matches the same address).
\<close>

theorem isAddressAllowed_deny_precedence:
  assumes "\<exists>pattern \<in> set denyList. filepath_Match pattern address = Inr True"
  shows "fst (isAddressAllowed address allowList denyList defaultPolicy) = False"
  using assms by (simp add: isAddressAllowed_def Let_def denyListLoop_matched)

theorem isAddressAllowed_deny_precedence_witness:
  "filepath_Match ''a@*'' ''a@x.io'' = Inr True
   \<and> filepath_Match ''*@x.io'' ''a@x.io'' = Inr True
   \<and> fst (isAddressAllowed ''a@x.io'' [''*@x.io''] [''b@x.io'', ''a@*''] ''allow'') = False"
proof -
  have deny: "filepath_Match ''a@*'' ''a@x.io'' = Inr True"
    by (simp add: Match_eval)
  have allow: "filepath_Match ''*@x.io'' ''a@x.io'' = Inr True"
    by (simp add: Match_eval)
  from deny
  have "\<exists>pattern \<in> set [''b@x.io'', ''a@*'']. filepath_Match pattern ''a@x.io'' = Inr True"
    by simp
  from isAddressAllowed_deny_precedence [OF this] deny allow show ?thesis by simp
qed

text \<open>
  C4. The default action: for every address that no pattern of the deny list and no
  pattern of the allow list matches, \<open>isAddressAllowed\<close> returns true when the default
  action is \<open>allow\<close>, false when it is \<open>deny\<close>, and false for every other value of
  the default action.
\<close>

theorem isAddressAllowed_default:
  assumes "\<forall>pattern \<in> set denyList. filepath_Match pattern address \<noteq> Inr True"
    and "\<forall>pattern \<in> set allowList. filepath_Match pattern address \<noteq> Inr True"
  shows "(defaultPolicy = PolicyAllow
            \<longrightarrow> fst (isAddressAllowed address allowList denyList defaultPolicy) = True)
       \<and> (defaultPolicy = PolicyDeny
            \<longrightarrow> fst (isAddressAllowed address allowList denyList defaultPolicy) = False)
       \<and> (defaultPolicy \<noteq> PolicyAllow \<and> defaultPolicy \<noteq> PolicyDeny
            \<longrightarrow> fst (isAddressAllowed address allowList denyList defaultPolicy) = False)"
  using assms
  by (simp add: isAddressAllowed_def Let_def denyListLoop_matched allowListLoop_matched
        PolicyAllow_def PolicyDeny_def)

theorem isAddressAllowed_default_witness:
  "fst (isAddressAllowed ''c@y.io'' [''*@x.io''] [''b@*'', ''[''] ''allow'') = True
   \<and> fst (isAddressAllowed ''c@y.io'' [''*@x.io''] [''b@*'', ''[''] ''deny'') = False
   \<and> fst (isAddressAllowed ''c@y.io'' [''*@x.io''] [''b@*'', ''[''] ''Allow'') = False"
proof -
  have deny: "\<forall>pattern \<in> set [''b@*'', ''['']. filepath_Match pattern ''c@y.io'' \<noteq> Inr True"
    by (simp add: Match_eval)
  have allow: "\<forall>pattern \<in> set [''*@x.io'']. filepath_Match pattern ''c@y.io'' \<noteq> Inr True"
    by (simp add: Match_eval)
  show ?thesis
    using isAddressAllowed_default [OF deny allow, of "''allow''"]
      isAddressAllowed_default [OF deny allow, of "''deny''"]
      isAddressAllowed_default [OF deny allow, of "''Allow''"]
    by (simp add: PolicyAllow_def PolicyDeny_def)
qed

section \<open>Properties of the session\<close>

lemma session_Reset_funpow: "(session_Reset ^^ n) s = s"
  by (induction n) (simp_all add: session_Reset_def)

text \<open>
  C6. For every session in which authentication is required and \<open>authenticated\<close> is
  false, after any number \<open>n\<close> of \<open>Reset\<close> calls, the \<open>Mail\<close>, \<open>Rcpt\<close> and \<open>Data\<close>
  handlers each return the same error, \<open>ErrAuthRequired\<close>, for every address and every
  payload (also one whose read fails); \<open>Data\<close> leaves the session, and so the queue,
  as it was.
\<close>

theorem auth_gate_uniform:
  assumes "requireAuth s" and "\<not> authenticated s"
  shows "fst (session_Mail ((session_Reset ^^ n) s) from) = Some ErrAuthRequired
       \<and> fst (session_Rcpt ((session_Reset ^^ n) s) to) = Some ErrAuthRequired
       \<and> fst (session_Data Parse ((session_Reset ^^ n) s) r) = Some ErrAuthRequired
       \<and> fst (snd (session_Data Parse ((session_Reset ^^ n) s) r)) = s"
  using assms
  by (simp add: session_Reset_funpow session_Mail_def session_Rcpt_def session_Data_def)

theorem auth_gate_uniform_witness:
  "requireAuth (example_session False) \<and> \<not> authenticated (example_session False)
   \<and> fst (session_Mail ((session_Reset ^^ 3) (example_session False)) ''f@x.io'')
        = Some ErrAuthRequired
   \<and> fst (session_Rcpt ((session_Reset ^^ 3) (example_session False)) ''ok@x.io'')
        = Some ErrAuthRequired
   \<and> fst (session_Data example_Parse ((session_Reset ^^ 3) (example_session False)) (Inr ''mail''))
        = Some ErrAuthRequired
   \<and> emailChan (fst (snd (session_Data example_Parse ((session_Reset ^^ 3) (example_session False))
                             (Inr ''mail'')))) = Some []"
proof -
  have r: "requireAuth (example_session False)"
    by (simp add: example_session_def NewSession_def example_cfg_def)
  have a: "\<not> authenticated (example_session False)"
    by (simp add: example_session_def)
  have q: "emailChan (example_session False) = Some []"
    by (simp add: example_session_def NewSession_def)
  show ?thesis
    using auth_gate_uniform [OF r a, of 3 "''f@x.io''" "''ok@x.io''" example_Parse "Inr ''mail''"]
      r a q
    by simp
qed

lemma session_Data_authenticated:
  "authenticated (fst (snd (session_Data Parse s r))) = authenticated s"
  by (simp add: session_Data_def Let_def split: sum.splits option.splits)

lemma session_Auth_authenticated:
  "authenticated (fst (snd (session_Auth C s i u p)))
     = (authenticated s \<or> fst (session_Auth C s i u p) = None)"
  by (simp add: session_Auth_def Let_def split: option.splits)

lemma handle_authenticated:
  "authenticated (fst (snd (handle C Parse s c)))
     = (authenticated s \<or> (\<exists>i u p. c = AUTH i u p \<and> fst (handle C Parse s c) = None))"
  by (cases c)
     (simp_all add: session_Data_authenticated session_Auth_authenticated session_Reset_def)

lemma run_authenticated:
  "authenticated s \<Longrightarrow> authenticated (fst (snd (run C Parse s cs)))"
proof (induction cs arbitrary: s)
  case Nil
  then show ?case by simp
next
  case (Cons c cs)
  obtain reply s1 log1 where h: "handle C Parse s c = (reply, s1, log1)"
    by (cases "handle C Parse s c") auto
  with Cons.prems have "authenticated s1"
    using handle_authenticated [of C Parse s c] by simp
  from Cons.IH [OF this] h show ?case
    by (auto split: prod.splits)
qed

text \<open>
  C8. For every session and every command, the \<open>authenticated\<close> flag after the
  command is true exactly when it was true before, or the command is an \<open>Auth\<close>
  exchange that succeeds: only a successful \<open>Auth\<close> changes the flag, from false to
  true. \<open>Reset\<close> preserves the flag, and once the flag is true it is true after every
  sequence of commands (\<open>Auth\<close>, \<open>Mail\<close>, \<open>Rcpt\<close>, \<open>Data\<close>, \<open>Reset\<close>, \<open>Logout\<close>).
\<close>

theorem authenticated_only_set_by_Auth:
  "authenticated (fst (snd (handle C Parse s c)))
     = (authenticated s \<or> (\<exists>i u p. c = AUTH i u p \<and> fst (handle C Parse s c) = None))
   \<and> authenticated (session_Reset s) = authenticated s
   \<and> (authenticated s \<longrightarrow> authenticated (fst (snd (run C Parse s cs))))"
  using handle_authenticated [of C Parse s c] run_authenticated [of s C Parse cs]
  by (simp add: session_Reset_def)

theorem authenticated_only_set_by_Auth_witness:
  "\<not> authenticated (example_session False)
   \<and> \<not> authenticated (fst (snd (run example_bcrypt example_Parse (example_session False)
         [AUTH [] ''u'' ''wrong'', MAIL ''f@x.io'', RSET, DATA (Inr ''mail''), QUIT])))
   \<and> authenticated (fst (snd (handle example_bcrypt example_Parse (example_session False)
         (AUTH [] ''u'' ''pw''))))
   \<and> authenticated (fst (snd (run example_bcrypt example_Parse (example_session True)
         [MAIL ''f@x.io'', RCPT ''ok@x.io'', DATA (Inr ''mail''), RSET, AUTH [] ''u'' ''wrong'',
          DATA (Inr ''garbage''), QUIT])))"
proof -
  have a: "authenticated (example_session True)"
    by (simp add: example_session_def)
  have n: "\<not> authenticated (example_session False)"
    by (simp add: example_session_def)
  have ok: "fst (handle example_bcrypt example_Parse (example_session False) (AUTH [] ''u'' ''pw''))
              = None"
    by (simp add: session_Auth_def example_session_def NewSession_def example_userDb_def
          example_bcrypt_def)
  have bad: "\<not> authenticated (fst (snd (run example_bcrypt example_Parse (example_session False)
         [AUTH [] ''u'' ''wrong'', MAIL ''f@x.io'', RSET, DATA (Inr ''mail''), QUIT])))"
    by (simp add: session_Auth_def session_Data_def session_Reset_def example_session_def
          NewSession_def example_userDb_def example_bcrypt_def example_cfg_def)
  show ?thesis
    using authenticated_only_set_by_Auth [of example_bcrypt example_Parse "example_session False"
        "AUTH [] ''u'' ''pw''" "[]"]
      authenticated_only_set_by_Auth [of example_bcrypt example_Parse "example_session True"
        "MAIL ''f@x.io''"
        "[MAIL ''f@x.io'', RCPT ''ok@x.io'', DATA (Inr ''mail''), RSET, AUTH [] ''u'' ''wrong'',
          DATA (Inr ''garbage''), QUIT]"]
      a n ok bad
    by simp
qed

lemma at_level_append [simp]: "at_level l (xs @ ys) = at_level l xs @ at_level l ys"
  by (simp add: at_level_def)

lemma at_level_simps [simp]:
  "at_level l [] = []"
  "at_level l (x # xs) = (if fst x = l then x # at_level l xs else at_level l xs)"
  by (simp_all add: at_level_def)

lemmas logger_defs = Tracef_def Debugf_def Infof_def Warnf_def Errorf_def

text \<open>
  C5. \<open>Data\<close> parses a payload once the session has passed the authentication gate
  (authentication is not required, or the session is authenticated) and the payload
  is read. For every such payload \<open>b\<close>: if parsing fails, or the parsed message has
  no sender address, or it has no recipient address, \<open>Data\<close> returns nil and leaves
  the session and its queue as they were; of these cases only that of a message
  with a sender and no recipient is logged at warning level (a parse failure is
  logged at error level), and a warning in the log of \<open>Data\<close> means that the message
  had no recipient; otherwise \<open>Data\<close> returns nil and appends exactly one message to
  the queue of the session's channel, whose recipients are the parsed ones in their
  order.
\<close>

theorem session_Data_outcomes:
  assumes "\<not> (requireAuth s \<and> \<not> authenticated s)"
  shows "(\<forall>err. Parse b = Inl err \<longrightarrow>
            session_Data Parse s (Inr b)
              = (None, s, [Tracef ''Raw email:\<newline>%s'' [ArgString b],
                           Errorf ''Error parsing email: %v'' [ArgString err]]))
       \<and> (\<forall>m. Parse b = Inr m \<and> Email_From m = [] \<longrightarrow>
            session_Data Parse s (Inr b)
              = (None, s, [Tracef ''Raw email:\<newline>%s'' [ArgString b]]))
       \<and> (\<forall>m. Parse b = Inr m \<and> Email_From m \<noteq> [] \<and> Email_To m = [] \<longrightarrow>
            session_Data Parse s (Inr b)
              = (None, s, [Tracef ''Raw email:\<newline>%s'' [ArgString b],
                           Warnf ''Email from '%s' has no recipient; skipping''
                             [ArgString (Address (Email_From m ! 0))]]))
       \<and> (\<forall>m q. Parse b = Inr m \<and> Email_From m \<noteq> [] \<and> Email_To m \<noteq> []
                   \<and> emailChan s = Some q \<longrightarrow>
            (\<exists>e. session_Data Parse s (Inr b)
                    = (None, s\<lparr>emailChan := Some (q @ [e])\<rparr>,
                       [Tracef ''Raw email:\<newline>%s'' [ArgString b]])
                  \<and> To e = map Address (Email_To m)))
       \<and> (at_level LevelWarning (snd (snd (session_Data Parse s (Inr b)))) \<noteq> []
            \<longrightarrow> (\<exists>m. Parse b = Inr m \<and> Email_To m = []))"
  using assms
  by (auto simp: session_Data_def Let_def logger_defs split: sum.splits option.splits)

theorem session_Data_outcomes_witness:
  "\<not> (requireAuth (example_session True) \<and> \<not> authenticated (example_session True))
   \<and> session_Data example_Parse (example_session True) (Inr ''garbage'')
       = (None, example_session True,
          [Tracef ''Raw email:\<newline>%s'' [ArgString ''garbage''],
           Errorf ''Error parsing email: %v'' [ArgString ''malformed header line'']])
   \<and> session_Data example_Parse (example_session True) (Inr ''no-from'')
       = (None, example_session True,
          [Tracef ''Raw email:\<newline>%s'' [ArgString ''no-from'']])
   \<and> session_Data example_Parse (example_session True) (Inr ''no-to'')
       = (None, example_session True,
          [Tracef ''Raw email:\<newline>%s'' [ArgString ''no-to''],
           Warnf ''Email from '%s' has no recipient; skipping'' [ArgString ''f@x.io'']])
   \<and> emailChan (fst (snd (session_Data example_Parse (example_session True) (Inr ''mail''))))
       = Some [\<lparr>Body = \<lparr>HTML = ''<p>hi</p>'', Text = ''hi''\<rparr>, From = ''f@x.io'',
                Subject = ''hello'', To = [''no@x.io'', ''ok@x.io'']\<rparr>]"
proof -
  have gate: "\<not> (requireAuth (example_session True) \<and> \<not> authenticated (example_session True))"
    by (simp add: example_session_def)
  have q: "emailChan (example_session True) = Some []"
    by (simp add: example_session_def NewSession_def)
  have p1: "example_Parse ''garbage'' = Inl ''malformed header line''"
    by (simp add: example_Parse_def)
  have p2: "\<exists>m. example_Parse ''no-from'' = Inr m \<and> Email_From m = []"
    by (simp add: example_Parse_def)
  have p3: "\<exists>m. example_Parse ''no-to'' = Inr m \<and> Email_From m \<noteq> [] \<and> Email_To m = []
               \<and> Address (Email_From m ! 0) = ''f@x.io''"
    by (simp add: example_Parse_def)
  have p4: "emailChan (fst (snd (session_Data example_Parse (example_session True) (Inr ''mail''))))
       = Some [\<lparr>Body = \<lparr>HTML = ''<p>hi</p>'', Text = ''hi''\<rparr>, From = ''f@x.io'',
                Subject = ''hello'', To = [''no@x.io'', ''ok@x.io'']\<rparr>]"
    by (simp add: session_Data_def example_Parse_def example_session_def NewSession_def)
  show ?thesis
    using session_Data_outcomes [OF gate, of example_Parse "''garbage''"]
      session_Data_outcomes [OF gate, of example_Parse "''no-from''"]
      session_Data_outcomes [OF gate, of example_Parse "''no-to''"]
      session_Data_outcomes [OF gate, of example_Parse "''mail''"]
      gate p1 p2 p3 p4
    by auto
qed

lemma run_envelope_unchanged:
  "\<forall>c \<in> set cs. \<exists>a. c = MAIL a \<or> c = RCPT a \<Longrightarrow> fst (snd (run C Parse s cs)) = s"
  by (induction cs) (auto split: prod.splits)

lemma session_Data_enqueue:
  assumes "emailChan (fst (snd (session_Data Parse s r))) \<noteq> emailChan s"
  shows "\<exists>b m q. r = Inr b \<and> Parse b = Inr m \<and> Email_From m \<noteq> [] \<and> emailChan s = Some q
           \<and> emailChan (fst (snd (session_Data Parse s r)))
               = Some (q @ [\<lparr>Body = \<lparr>HTML = HTMLBody m, Text = TextBody m\<rparr>,
                              From = Address (Email_From m ! 0),
                              Subject = Email_Subject m,
                              To = map Address (Email_To m)\<rparr>])"
  using assms
  by (auto simp: session_Data_def Let_def split: sum.splits option.splits if_splits)

text \<open>
  C9. For every \<open>Data\<close> command that enqueues a message, after any sequence \<open>cs\<close> of
  \<open>Mail\<close> and \<open>Rcpt\<close> commands (accepted or rejected): the payload was read and
  parsed, the queue grows by exactly one message \<open>e\<close>, whose \<open>From\<close> is the first
  address of the parsed From header and whose \<open>To\<close> is the list of the addresses of
  the parsed To header, in header order (subject and bodies are the parsed ones);
  \<open>Data\<close> does what it does on the session before the envelope commands, so the
  envelope addresses and the policy decisions on them have no effect; and an address
  that \<open>Rcpt\<close> rejected is in \<open>To e\<close> whenever it is in the To header.
\<close>

theorem enqueued_message_from_headers:
  assumes "\<forall>c \<in> set cs. \<exists>a. c = MAIL a \<or> c = RCPT a"
    and "emailChan (fst (snd (session_Data Parse (fst (snd (run C Parse s cs))) r))) \<noteq> emailChan s"
  shows "\<exists>b m q e. r = Inr b \<and> Parse b = Inr m \<and> Email_From m \<noteq> [] \<and> emailChan s = Some q
           \<and> emailChan (fst (snd (session_Data Parse (fst (snd (run C Parse s cs))) r)))
               = Some (q @ [e])
           \<and> From e = Address (Email_From m ! 0)
           \<and> To e = map Address (Email_To m)
           \<and> Subject e = Email_Subject m
           \<and> Body e = \<lparr>HTML = HTMLBody m, Text = TextBody m\<rparr>
           \<and> (\<forall>a. RCPT a \<in> set cs \<and> fst (session_Rcpt s a) \<noteq> None
                    \<and> a \<in> Address ` set (Email_To m) \<longrightarrow> a \<in> set (To e))
           \<and> session_Data Parse (fst (snd (run C Parse s cs))) r = session_Data Parse s r"
proof -
  have same: "fst (snd (run C Parse s cs)) = s"
    using assms(1) by (rule run_envelope_unchanged)
  with assms(2) have "emailChan (fst (snd (session_Data Parse s r))) \<noteq> emailChan s"
    by simp
  from session_Data_enqueue [OF this] obtain b m q where
    "r = Inr b" "Parse b = Inr m" "Email_From m \<noteq> []" "emailChan s = Some q"
    "emailChan (fst (snd (session_Data Parse s r)))
       = Some (q @ [\<lparr>Body = \<lparr>HTML = HTMLBody m, Text = TextBody m\<rparr>,
                      From = Address (Email_From m ! 0),
                      Subject = Email_Subject m,
                      To = map Address (Email_To m)\<rparr>])"
    by blast
  then show ?thesis
    unfolding same
    by (intro exI [of _ b] exI [of _ m] exI [of _ q]
          exI [of _ "\<lparr>Body = \<lparr>HTML = HTMLBody m, Text = TextBody m\<rparr>,
                      From = Address (Email_From m ! 0),
                      Subject = Email_Subject m,
                      To = map Address (Email_To m)\<rparr>"]) simp
qed

theorem enqueued_message_from_headers_witness:
  "fst (session_Mail (example_session True) ''bad@x.io'') = Some (SMTPError 550 ''Sender not allowed'')
   \<and> fst (session_Rcpt (example_session True) ''no@x.io'')
       = Some (SMTPError 550 ''Recipient not allowed'')
   \<and> emailChan (example_session True) = Some []
   \<and> emailChan (fst (snd (session_Data example_Parse
        (fst (snd (run example_bcrypt example_Parse (example_session True)
                     [MAIL ''bad@x.io'', RCPT ''no@x.io''])))
        (Inr ''mail''))))
       = Some [\<lparr>Body = \<lparr>HTML = ''<p>hi</p>'', Text = ''hi''\<rparr>, From = ''f@x.io'',
                Subject = ''hello'', To = [''no@x.io'', ''ok@x.io'']\<rparr>]"
proof -
  have env: "\<forall>c \<in> set [MAIL ''bad@x.io'', RCPT ''no@x.io'']. \<exists>a. c = MAIL a \<or> c = RCPT a"
    by simp
  have mail: "fst (session_Mail (example_session True) ''bad@x.io'')
                = Some (SMTPError 550 ''Sender not allowed'')"
    by (simp add: session_Mail_def example_session_def NewSession_def example_cfg_def
          isAddressAllowed_def PolicyAllow_def PolicyDeny_def Match_eval)
  have rcpt: "fst (session_Rcpt (example_session True) ''no@x.io'')
                = Some (SMTPError 550 ''Recipient not allowed'')"
    by (simp add: session_Rcpt_def example_session_def NewSession_def example_cfg_def
          isAddressAllowed_def PolicyAllow_def PolicyDeny_def Match_eval)
  have q: "emailChan (example_session True) = Some []"
    by (simp add: example_session_def NewSession_def)
  have data: "emailChan (fst (snd (session_Data example_Parse (example_session True) (Inr ''mail''))))
       = Some [\<lparr>Body = \<lparr>HTML = ''<p>hi</p>'', Text = ''hi''\<rparr>, From = ''f@x.io'',
                Subject = ''hello'', To = [''no@x.io'', ''ok@x.io'']\<rparr>]"
    by (simp add: session_Data_def example_Parse_def example_session_def NewSession_def)
  have same: "fst (snd (run example_bcrypt example_Parse (example_session True)
                     [MAIL ''bad@x.io'', RCPT ''no@x.io''])) = example_session True"
    by simp
  have enq: "emailChan (fst (snd (session_Data example_Parse
        (fst (snd (run example_bcrypt example_Parse (example_session True)
                     [MAIL ''bad@x.io'', RCPT ''no@x.io''])))
        (Inr ''mail'')))) \<noteq> emailChan (example_session True)"
    unfolding same using data q by simp
  from enqueued_message_from_headers [OF env enq] mail rcpt q data same
  show ?thesis by simp
qed

section \<open>Properties of the credential store\<close>

lemma HasPrefix_hash: "HasPrefix l ''#'' = (l \<noteq> [] \<and> hd l = CHR ''#'')"
  by (cases l) (auto simp: HasPrefix_def)

lemma load_line_cases:
  "load_line filePath n l (users, logs) =
     (if wellformed_line l then (users(line_username l \<mapsto> line_user l), logs)
      else if malformed_line l then
        (users, logs @ [Warnf (''Skipping malformed line %d in user database file '%s': '%s''
                                 @ [CHR 0x27])
                          [ArgInt n, ArgString filePath, ArgString (TrimSpace l)]])
      else (users, logs))"
  by (auto simp: load_line_def Let_def wellformed_line_def malformed_line_def blank_line_def
        comment_line_def HasPrefix_hash SplitN_2_def line_username_def line_hash_def
        line_user_def drop_Suc)

lemma load_lines_result:
  "load_lines filePath n ls (users, logs) =
     (users ++ map_of (rev (map (\<lambda>l. (line_username l, line_user l)) (filter wellformed_line ls))),
      logs @ malformed_warnings filePath n ls)"
proof (induction ls arbitrary: n users logs)
  case Nil
  show ?case by simp
next
  case (Cons l ls)
  show ?case
    by (simp add: load_line_cases Cons.IH map_add_upd_left malformed_line_def wellformed_line_def)
       (simp add: map_add_def fun_eq_iff split: option.splits)
qed

lemma map_of_rev_last:
  "map_of (rev (map (\<lambda>l. (f l, g l)) xs)) k
     = (if filter (\<lambda>l. f l = k) xs = [] then None
        else Some (g (last (filter (\<lambda>l. f l = k) xs))))"
  by (induction xs rule: rev_induct) auto

lemma malformed_warnings_length:
  "length (malformed_warnings filePath n ls) = length (filter malformed_line ls)"
  by (induction ls arbitrary: n) auto

lemma line_partition:
  "length (filter wellformed_line ls)
     + length (filter (\<lambda>l. malformed_line l \<or> comment_line l \<or> blank_line l) ls) = length ls"
  by (induction ls) (auto simp: wellformed_line_def malformed_line_def comment_line_def)

text \<open>
  C7, as the code has it. The claim as stated fails on duplicate user names: two
  well-formed lines with the same user name give one entry
  (\<open>loadUserDatabase_duplicate_counterexample\<close>). Amended: loading a user database file
  that is opened and scanned without error, with \<open>N\<close> well-formed lines and \<open>M\<close>
  malformed, comment or blank lines, returns a store whose keys are the user names of
  the well-formed lines: at most \<open>N\<close> entries, and exactly \<open>N\<close> when these user names are
  pairwise distinct. The load is not aborted: each malformed line is logged with one
  warning (its line number and text) and skipped. A user name maps to the user of
  the last well-formed line that has it. Every line is of exactly one kind, so \<open>N\<close>
  and \<open>M\<close> add up to the number of lines.
\<close>

theorem loadUserDatabase_store:
  assumes "fs filePath = Scanned lines None"
  shows "\<exists>users.
      loadUserDatabase fs filePath = (Inr users, malformed_warnings filePath 0 lines)
      \<and> dom users = line_username ` {l \<in> set lines. wellformed_line l}
      \<and> card (dom users) \<le> length (filter wellformed_line lines)
      \<and> (distinct (map line_username (filter wellformed_line lines))
           \<longrightarrow> card (dom users) = length (filter wellformed_line lines))
      \<and> (\<forall>l \<in> set lines. wellformed_line l \<longrightarrow>
            users (line_username l)
              = Some (line_user (last (filter (\<lambda>l'. wellformed_line l'
                                                 \<and> line_username l' = line_username l) lines))))
      \<and> length (malformed_warnings filePath 0 lines) = length (filter malformed_line lines)
      \<and> length (filter wellformed_line lines)
          + length (filter (\<lambda>l. malformed_line l \<or> comment_line l \<or> blank_line l) lines)
          = length lines"
proof -
  define wf where "wf = filter wellformed_line lines"
  define users where "users = map_of (rev (map (\<lambda>l. (line_username l, line_user l)) wf))"
  have load: "loadUserDatabase fs filePath = (Inr users, malformed_warnings filePath 0 lines)"
    using assms by (simp add: loadUserDatabase_def load_lines_result users_def wf_def)
  have dom: "dom users = line_username ` {l \<in> set lines. wellformed_line l}"
    by (auto simp: users_def wf_def dom_map_of_conv_image_fst image_iff)
  have dom_set: "dom users = set (map line_username wf)"
    using dom by (auto simp: wf_def)
  have le: "card (dom users) \<le> length wf"
    unfolding dom_set using card_length [of "map line_username wf"] by simp
  have eq: "card (dom users) = length wf" if "distinct (map line_username wf)"
    unfolding dom_set using distinct_card [OF that] by simp
  have last: "users (line_username l)
      = Some (line_user (last (filter (\<lambda>l'. wellformed_line l'
                                         \<and> line_username l' = line_username l) lines)))"
    if "l \<in> set lines" "wellformed_line l" for l
  proof -
    have "filter (\<lambda>l'. line_username l' = line_username l) wf
            = filter (\<lambda>l'. wellformed_line l' \<and> line_username l' = line_username l) lines"
      by (simp add: wf_def conj_commute)
    moreover have "l \<in> set (filter (\<lambda>l'. line_username l' = line_username l) wf)"
      using that by (simp add: wf_def)
    then have "filter (\<lambda>l'. line_username l' = line_username l) wf \<noteq> []"
      by (metis empty_iff list.set(1))
    ultimately show ?thesis
      by (simp add: users_def map_of_rev_last)
  qed
  show ?thesis
    using load dom le eq last malformed_warnings_length [of filePath 0 lines]
      line_partition [of lines]
    unfolding wf_def by blast
qed

lemmas TrimSpace_eval =
  TrimSpace_def trimLeft.simps trimRight.simps DecodeRuneInString_def
  DecodeLastRuneInString_def IsSpace_def

lemma example_users_db_lines:
  "file_with_content example_users_db
     = Scanned [''# users'', [], ''u1:h1'', ''broken'', '' u2:h:2 '', ''u1:h3''] None"
  by (simp add: file_with_content_def example_users_db_def ScanLines.simps MaxScanTokenSize_def
        dropCR_def)

theorem loadUserDatabase_store_witness:
  "file_with_content example_users_db
     = Scanned [''# users'', [], ''u1:h1'', ''broken'', '' u2:h:2 '', ''u1:h3''] None
   \<and> filter wellformed_line [''# users'', [], ''u1:h1'', ''broken'', '' u2:h:2 '', ''u1:h3'']
       = [''u1:h1'', '' u2:h:2 '', ''u1:h3'']
   \<and> loadUserDatabase (\<lambda>path. file_with_content example_users_db) ''users.db''
       = (Inr [''u1'' \<mapsto> \<lparr>username = ''u1'', passwordHash = ''h3''\<rparr>,
               ''u2'' \<mapsto> \<lparr>username = ''u2'', passwordHash = ''h:2''\<rparr>],
          [Warnf (''Skipping malformed line %d in user database file '%s': '%s'' @ [CHR 0x27])
             [ArgInt 4, ArgString ''users.db'', ArgString ''broken'']])
   \<and> card (dom [''u1'' \<mapsto> \<lparr>username = ''u1'', passwordHash = ''h3''\<rparr>,
                 ''u2'' \<mapsto> \<lparr>username = ''u2'', passwordHash = ''h:2''\<rparr>]) = 2"
proof -
  have t: "TrimSpace ''# users'' = ''# users''" "TrimSpace [] = []" "TrimSpace ''u1:h1'' = ''u1:h1''"
    "TrimSpace ''broken'' = ''broken''" "TrimSpace '' u2:h:2 '' = ''u2:h:2''"
    "TrimSpace ''u1:h3'' = ''u1:h3''"
    by (simp_all add: TrimSpace_eval)
  have wf: "filter wellformed_line [''# users'', [], ''u1:h1'', ''broken'', '' u2:h:2 '', ''u1:h3'']
       = [''u1:h1'', '' u2:h:2 '', ''u1:h3'']"
    by (simp add: wellformed_line_def comment_line_def blank_line_def t)
  have mf: "malformed_warnings ''users.db'' 0
              [''# users'', [], ''u1:h1'', ''broken'', '' u2:h:2 '', ''u1:h3'']
       = [Warnf (''Skipping malformed line %d in user database file '%s': '%s'' @ [CHR 0x27])
             [ArgInt 4, ArgString ''users.db'', ArgString ''broken'']]"
    by (simp add: malformed_line_def comment_line_def blank_line_def t eval_nat_numeral)
  from loadUserDatabase_store [of "\<lambda>path. file_with_content example_users_db" "''users.db''",
      OF example_users_db_lines]
  obtain users where
    load: "loadUserDatabase (\<lambda>path. file_with_content example_users_db) ''users.db''
             = (Inr users, malformed_warnings ''users.db'' 0
                  [''# users'', [], ''u1:h1'', ''broken'', '' u2:h:2 '', ''u1:h3''])"
    by blast
  have users: "users = [''u1'' \<mapsto> \<lparr>username = ''u1'', passwordHash = ''h3''\<rparr>,
                        ''u2'' \<mapsto> \<lparr>username = ''u2'', passwordHash = ''h:2''\<rparr>]"
    using load
    by (auto simp: loadUserDatabase_def example_users_db_lines load_lines_result
          wellformed_line_def comment_line_def blank_line_def
          line_username_def line_user_def line_hash_def t)
  have c3: "loadUserDatabase (\<lambda>path. file_with_content example_users_db) ''users.db''
       = (Inr [''u1'' \<mapsto> \<lparr>username = ''u1'', passwordHash = ''h3''\<rparr>,
               ''u2'' \<mapsto> \<lparr>username = ''u2'', passwordHash = ''h:2''\<rparr>],
          [Warnf (''Skipping malformed line %d in user database file '%s': '%s'' @ [CHR 0x27])
             [ArgInt 4, ArgString ''users.db'', ArgString ''broken'']])"
    using load unfolding mf users .
  have c4: "card (dom [''u1'' \<mapsto> \<lparr>username = ''u1'', passwordHash = ''h3''\<rparr>,
                 ''u2'' \<mapsto> \<lparr>username = ''u2'', passwordHash = ''h:2''\<rparr>]) = 2"
    by simp
  show ?thesis
    by (intro conjI) (rule example_users_db_lines wf c3 c4)+
qed

text \<open>The counterexample to C7 as stated: a file of two well-formed lines and no
  other line, and a store of one entry.\<close>

theorem loadUserDatabase_duplicate_counterexample:
  "file_with_content (''a:x\<newline>a:y\<newline>'') = Scanned [''a:x'', ''a:y''] None
   \<and> filter wellformed_line [''a:x'', ''a:y''] = [''a:x'', ''a:y'']
   \<and> fst (loadUserDatabase (\<lambda>path. file_with_content (''a:x\<newline>a:y\<newline>'')) ''users.db'')
       = Inr [''a'' \<mapsto> \<lparr>username = ''a'', passwordHash = ''y''\<rparr>]
   \<and> card (dom [''a'' \<mapsto> \<lparr>username = ''a'', passwordHash = ''y''\<rparr>]) = 1"
proof -
  have t: "TrimSpace ''a:x'' = ''a:x''" "TrimSpace ''a:y'' = ''a:y''"
    by (simp_all add: TrimSpace_eval)
  have f: "file_with_content (''a:x\<newline>a:y\<newline>'') = Scanned [''a:x'', ''a:y''] None"
    by (simp add: file_with_content_def ScanLines.simps MaxScanTokenSize_def dropCR_def)
  have wf: "filter wellformed_line [''a:x'', ''a:y''] = [''a:x'', ''a:y'']"
    by (simp add: wellformed_line_def comment_line_def blank_line_def t)
  have c3: "fst (loadUserDatabase (\<lambda>path. file_with_content (''a:x\<newline>a:y\<newline>'')) ''users.db'')
       = Inr [''a'' \<mapsto> \<lparr>username = ''a'', passwordHash = ''y''\<rparr>]"
    by (simp add: loadUserDatabase_def f load_lines_result
          wellformed_line_def comment_line_def blank_line_def
          line_username_def line_user_def line_hash_def t fun_eq_iff)
  have c4: "card (dom [''a'' \<mapsto> \<lparr>username = ''a'', passwordHash = ''y''\<rparr>]) = 1"
    by simp
  show ?thesis
    by (intro conjI) (rule f wf c3 c4)+
qed

section \<open>Properties of the notifier and of the consumer loop\<close>

text \<open>The test \<open>strings.TrimSpace(body) == ""\<close> of \<open>SendMessage\<close> holds exactly for
  the strings that are empty or hold white space only.\<close>

lemma IsSpace_RuneError: "\<not> IsSpace RuneError"
  by (simp add: IsSpace_def RuneError_def)

lemma DecodeRuneInString_append:
  assumes "IsSpace (fst (DecodeRuneInString a))"
  shows "DecodeRuneInString (a @ b) = DecodeRuneInString a"
proof (cases a)
  case Nil
  with assms show ?thesis by (simp add: DecodeRuneInString_def IsSpace_RuneError)
next
  case (Cons c0 cs)
  show ?thesis
  proof (cases "(of_char c0 :: nat) < 0x80")
    case True
    then show ?thesis by (simp add: DecodeRuneInString_def Cons Let_def)
  next
    case ascii: False
    show ?thesis
    proof (cases "utf8_first (of_char c0)")
      case None
      with ascii show ?thesis by (simp add: DecodeRuneInString_def Cons Let_def)
    next
      case (Some t)
      obtain sz lo hi where t: "t = (sz, lo, hi)" by (cases t) auto
      from Some t have sz: "sz = 2 \<or> sz = 3 \<or> sz = 4" using utf8_first_size by blast
      show ?thesis
      proof (cases "length a < sz")
        case True
        with ascii Some t have "DecodeRuneInString a = (RuneError, 1)"
          by (simp add: DecodeRuneInString_def Cons Let_def)
        with assms show ?thesis by (simp add: IsSpace_RuneError)
      next
        case False
        with sz Some t ascii show ?thesis
          by (auto simp: DecodeRuneInString_def Cons Let_def nth_append)
      qed
    qed
  qed
qed

lemma whitespace_only_append:
  "whitespace_only a \<Longrightarrow> whitespace_only b \<Longrightarrow> whitespace_only (a @ b)"
proof (induction a rule: whitespace_only.induct)
  case (1 s)
  show ?case
  proof (cases "s = []")
    case True
    with 1 show ?thesis by simp
  next
    case False
    with "1.prems" have sp: "IsSpace (fst (DecodeRuneInString s))"
      and rest: "whitespace_only (drop (snd (DecodeRuneInString s)) s)"
      by (simp_all add: whitespace_only.simps [of s] split: if_splits)
    have n: "snd (DecodeRuneInString s) \<le> length s"
      using DecodeRuneInString_size [OF False] by simp
    have "whitespace_only (drop (snd (DecodeRuneInString s)) s @ b)"
      using "1.IH" [OF False sp rest "1.prems"(2)] .
    then show ?thesis
      using False sp n
      by (simp add: whitespace_only.simps [of "s @ b"] DecodeRuneInString_append)
  qed
qed

lemma whitespace_only_one_rune:
  assumes "s \<noteq> []" and "IsSpace (fst (DecodeRuneInString s))"
    and "snd (DecodeRuneInString s) = length s"
  shows "whitespace_only s"
  using assms by (simp add: whitespace_only.simps [of s] whitespace_only.simps [of "[]"])

lemma lastRuneStart_nonneg: "0 \<le> lastRuneStart s"
proof -
  define n where "n = int (length s)"
  define lim where "lim = max 0 (n - 4)"
  have eq: "lastRuneStart s =
      (case find (\<lambda>p. RuneStart (s ! nat p))
                 (filter (\<lambda>p. lim \<le> p) [n - 2, n - 3, n - 4]) of
         Some p \<Rightarrow> p
       | None \<Rightarrow> max 0 (lim - 1))"
    by (simp only: lastRuneStart_def Let_def lim_def n_def)
  show ?thesis
  proof (cases "find (\<lambda>p. RuneStart (s ! nat p))
                     (filter (\<lambda>p. lim \<le> p) [n - 2, n - 3, n - 4])")
    case None
    with eq have "lastRuneStart s = max 0 (lim - 1)" by (simp only: option.case)
    then show ?thesis by simp
  next
    case (Some p)
    then have "p \<in> set (filter (\<lambda>p. lim \<le> p) [n - 2, n - 3, n - 4])"
      by (rule find_Some_in_set)
    then have "lim \<le> p" unfolding set_filter by blast
    moreover from eq Some have "lastRuneStart s = p" by (simp only: option.case)
    ultimately show ?thesis by (simp add: lim_def)
  qed
qed

lemma DecodeLastRuneInString_forward:
  assumes "s \<noteq> []" and "IsSpace (fst (DecodeLastRuneInString s))"
  shows "snd (DecodeLastRuneInString s) \<le> length s
       \<and> DecodeRuneInString (drop (length s - snd (DecodeLastRuneInString s)) s)
           = DecodeLastRuneInString s"
proof (cases "(of_char (last s) :: nat) < 0x80")
  case True
  have "drop (length s - 1) s = [last s]"
    using assms(1) by (induction s) (auto simp: drop_Cons')
  with True assms(1) show ?thesis
    by (simp add: DecodeLastRuneInString_def DecodeRuneInString_def Let_def Suc_le_eq)
next
  case False
  define start where "start = lastRuneStart s"
  obtain r size where d: "DecodeRuneInString (drop (nat start) s) = (r, size)"
    by (cases "DecodeRuneInString (drop (nat start) s)") auto
  have eq: "start + int size = int (length s)"
    using assms False d
    by (auto simp: DecodeLastRuneInString_def Let_def start_def IsSpace_RuneError
          split: if_splits)
  then have dl: "DecodeLastRuneInString s = (r, size)"
    using assms(1) False d by (simp add: DecodeLastRuneInString_def Let_def start_def)
  have "0 \<le> start"
    unfolding start_def by (rule lastRuneStart_nonneg)
  with eq have "nat start = length s - size" and "size \<le> length s" by linarith+
  with d dl show ?thesis by simp
qed

lemma trimRight_empty_whitespace: "trimRight s = [] \<Longrightarrow> whitespace_only s"
proof (induction s rule: trimRight.induct)
  case (1 s)
  show ?case
  proof (cases "s = []")
    case True
    then show ?thesis by (simp add: whitespace_only.simps [of "[]"])
  next
    case False
    with "1.prems" have sp: "IsSpace (fst (DecodeLastRuneInString s))"
      and rest: "trimRight (take (length s - snd (DecodeLastRuneInString s)) s) = []"
      by (simp_all add: trimRight.simps [of s] split: if_splits)
    define k where "k = length s - snd (DecodeLastRuneInString s)"
    have fw: "snd (DecodeLastRuneInString s) \<le> length s"
      "DecodeRuneInString (drop k s) = DecodeLastRuneInString s"
      using DecodeLastRuneInString_forward [OF False sp] by (simp_all add: k_def)
    have pos: "1 \<le> snd (DecodeLastRuneInString s)"
      using DecodeLastRuneInString_size [OF False] .
    have "whitespace_only (take k s)"
      using "1.IH" [OF False sp] rest by (simp add: k_def)
    moreover have "whitespace_only (drop k s)"
    proof (rule whitespace_only_one_rune)
      show "drop k s \<noteq> []" using pos fw(1) False by (simp add: k_def)
      show "IsSpace (fst (DecodeRuneInString (drop k s)))" using sp fw(2) by simp
      show "snd (DecodeRuneInString (drop k s)) = length (drop k s)"
        using fw pos by (simp add: k_def)
    qed
    ultimately have "whitespace_only (take k s @ drop k s)"
      by (rule whitespace_only_append)
    then show ?thesis by simp
  qed
qed

lemma trimLeft_whitespace: "whitespace_only (trimLeft s) \<Longrightarrow> whitespace_only s"
proof (induction s rule: trimLeft.induct)
  case (1 s)
  show ?case
  proof (cases "s \<noteq> [] \<and> IsSpace (fst (DecodeRuneInString s))")
    case True
    with "1.prems" have "whitespace_only (trimLeft (drop (snd (DecodeRuneInString s)) s))"
      by (simp add: trimLeft.simps [of s])
    with "1.IH" True have "whitespace_only (drop (snd (DecodeRuneInString s)) s)" by simp
    with True show ?thesis by (simp add: whitespace_only.simps [of s])
  next
    case False
    with "1.prems" show ?thesis by (auto simp: trimLeft.simps [of s] split: if_splits)
  qed
qed

lemma whitespace_only_trimLeft: "whitespace_only s \<Longrightarrow> trimLeft s = []"
proof (induction s rule: trimLeft.induct)
  case (1 s)
  show ?case
  proof (cases "s = []")
    case True
    then show ?thesis by (simp add: trimLeft.simps [of "[]"])
  next
    case False
    with 1 show ?thesis
      by (simp add: trimLeft.simps [of s] whitespace_only.simps [of s] split: if_splits)
  qed
qed

lemma TrimSpace_empty_iff: "TrimSpace s = [] \<longleftrightarrow> whitespace_only s"
proof
  assume "TrimSpace s = []"
  then have "whitespace_only (trimLeft s)"
    unfolding TrimSpace_def by (rule trimRight_empty_whitespace)
  then show "whitespace_only s" by (rule trimLeft_whitespace)
next
  assume "whitespace_only s"
  then show "TrimSpace s = []"
    by (simp add: TrimSpace_def whitespace_only_trimLeft trimRight.simps [of "[]"])
qed

lemma SendMessage_blank:
  assumes "GetUserByEmail client userEmail w = (Inr user, w1)"
    and "whitespace_only (if preferHTMLBody then HTML body else Text body)"
  shows "SendMessage client c userEmail sender to subject body preferHTMLBody w
           = (Some (ErrSendMessage (User_ID user)
                      (if preferHTMLBody then ''empty HTML body'' else ''empty plain text body'')),
              [CallGetUserByEmail userEmail],
              [Debugf (''Slack: Found matching user for email '%s': '%s'' @ [CHR 0x27])
                 [ArgString userEmail, ArgString (User_Name user)]],
              w1)"
  using assms by (simp add: SendMessage_def Let_def TrimSpace_empty_iff split: if_splits)

lemma deliver_attempts:
  "fst (snd (deliver send preferHTML e recipient w))
     = (case send recipient (From e) (To e) (Subject e) (Body e) preferHTML w of
          (None, w1) \<Rightarrow> [(recipient, preferHTML, None)]
        | (Some err, w1) \<Rightarrow>
            if is_ErrSendMessage err \<and> preferHTML then
              [(recipient, preferHTML, Some err),
               (recipient, True,
                fst (send recipient (From e) (To e) (Subject e) (Body e) True w1))]
            else [(recipient, preferHTML, Some err)])"
  by (simp add: deliver_def Let_def split: prod.splits option.splits)

text \<open>
  C10, as the code has it. The claim as stated fails when the lookup of the user
  fails: \<open>SendMessage\<close> looks the user up first and returns \<open>ErrUserNotFound\<close>, which
  the consumer loop does not retry (\<open>SendMessage_lookup_counterexample\<close>). Amended: for
  every call to \<open>SendMessage\<close> in which the lookup of the user by email succeeds and the
  preferred body (the HTML body when \<open>preferHTMLBody\<close> is set, the plain-text body
  otherwise) is empty or holds white space only, \<open>SendMessage\<close> returns an
  \<open>ErrSendMessage\<close>, having called the client for the lookup only: no DM channel is
  opened and no message is posted. This is the kind of error the loop retries: when
  the loop prefers HTML, it makes a second call for that recipient.
\<close>

theorem SendMessage_empty_body:
  assumes "GetUserByEmail client userEmail w = (Inr user, w1)"
    and "whitespace_only (if preferHTMLBody then HTML body else Text body)"
  shows "(\<exists>reason logs.
            SendMessage client c userEmail sender to subject body preferHTMLBody w
              = (Some (ErrSendMessage (User_ID user) reason), [CallGetUserByEmail userEmail],
                 logs, w1)
            \<and> is_ErrSendMessage (ErrSendMessage (User_ID user) reason))
       \<and> (\<forall>e. Body e = body \<and> preferHTMLBody \<longrightarrow>
             length (fst (snd (deliver (slackService client c) preferHTMLBody e userEmail w))) = 2)"
  using SendMessage_blank [OF assms, of c]
  by (auto simp: deliver_def slackService_def Let_def split: prod.splits option.splits)

theorem SendMessage_empty_body_witness:
  "GetUserByEmail (example_client [''a@x.io'']) ''a@x.io'' ()
     = (Inr \<lparr>User_ID = ''U1'', User_Name = ''user''\<rparr>, ())
   \<and> whitespace_only (HTML (Body (example_email [CHR 0x20, CHR 0x0A, CHR 0xC2, CHR 0xA0])))
   \<and> SendMessage (example_client [''a@x.io'']) example_converter ''a@x.io'' ''f@x.io''
        [''a@x.io''] ''hello'' (Body (example_email [CHR 0x20, CHR 0x0A, CHR 0xC2, CHR 0xA0])) True ()
     = (Some (ErrSendMessage ''U1'' ''empty HTML body''), [CallGetUserByEmail ''a@x.io''],
        [Debugf (''Slack: Found matching user for email '%s': '%s'' @ [CHR 0x27])
           [ArgString ''a@x.io'', ArgString ''user'']], ())"
proof -
  have look: "GetUserByEmail (example_client [''a@x.io'']) ''a@x.io'' ()
     = (Inr \<lparr>User_ID = ''U1'', User_Name = ''user''\<rparr>, ())"
    by (simp add: example_client_def)
  have blank: "whitespace_only (if True then HTML (Body (example_email [CHR 0x20, CHR 0x0A, CHR 0xC2, CHR 0xA0]))
       else Text (Body (example_email [CHR 0x20, CHR 0x0A, CHR 0xC2, CHR 0xA0])))"
    by (simp add: example_email_def whitespace_only.simps DecodeRuneInString_def utf8_first_def
          IsSpace_def)
  have eval: "SendMessage (example_client [''a@x.io'']) example_converter ''a@x.io'' ''f@x.io''
        [''a@x.io''] ''hello'' (Body (example_email [CHR 0x20, CHR 0x0A, CHR 0xC2, CHR 0xA0])) True ()
     = (Some (ErrSendMessage ''U1'' ''empty HTML body''), [CallGetUserByEmail ''a@x.io''],
        [Debugf (''Slack: Found matching user for email '%s': '%s'' @ [CHR 0x27])
           [ArgString ''a@x.io'', ArgString ''user'']], ())"
    using SendMessage_blank [OF look blank, of example_converter "''f@x.io''" "[''a@x.io'']" "''hello''"]
    by simp
  from SendMessage_empty_body [OF look blank, of example_converter "''f@x.io''" "[''a@x.io'']" "''hello''"]
    look blank eval
  show ?thesis by simp
qed

text \<open>The counterexample to C10 as stated: the HTML body is a blank, the lookup
  fails, and \<open>SendMessage\<close> returns \<open>ErrUserNotFound\<close>, after which the loop makes no
  second call.\<close>

theorem SendMessage_lookup_counterexample:
  "whitespace_only (HTML (Body (example_email '' '')))
   \<and> fst (SendMessage (example_client []) example_converter ''a@x.io'' ''f@x.io'' [''a@x.io'']
            ''hello'' (Body (example_email '' '')) True ())
       = Some (ErrUserNotFound ''a@x.io'' ''users_not_found'')
   \<and> is_ErrSendMessage (ErrUserNotFound ''a@x.io'' ''users_not_found'') = False
   \<and> fst (snd (deliver (slackService (example_client []) example_converter) True
                  (example_email '' '') ''a@x.io'' ()))
       = [(''a@x.io'', True, Some (ErrUserNotFound ''a@x.io'' ''users_not_found''))]"
  by (simp add: example_email_def whitespace_only.simps DecodeRuneInString_def IsSpace_def
        SendMessage_def example_client_def deliver_def slackService_def)

lemma deliver_all_recipients:
  "fst ` set (fst (snd (deliver_all send preferHTML e rs w))) = set rs
   \<and> length (fst (snd (deliver_all send preferHTML e rs w))) \<le> 2 * length rs"
proof (induction rs arbitrary: w)
  case Nil
  show ?case by simp
next
  case (Cons r rs)
  obtain w1 a1 l1 where d: "deliver send preferHTML e r w = (w1, a1, l1)"
    by (cases "deliver send preferHTML e r w") auto
  have a1: "fst ` set a1 = {r} \<and> length a1 \<le> 2"
    using deliver_attempts [of send preferHTML e r w] d
    by (auto split: prod.splits option.splits if_splits)
  obtain w2 a2 l2 where da: "deliver_all send preferHTML e rs w1 = (w2, a2, l2)"
    by (cases "deliver_all send preferHTML e rs w1") auto
  from Cons.IH [of w1] da have "fst ` set a2 = set rs \<and> length a2 \<le> 2 * length rs"
    by simp
  with a1 d da show ?case by (auto simp: image_Un)
qed

text \<open>
  C1, as the code has it. The claim as stated fails for a failure that is not an
  \<open>ErrSendMessage\<close>: the loop retries only when \<open>errors.As\<close> finds an
  \<open>ErrSendMessage\<close>, so a failed lookup of the user under the HTML preference is not
  retried (\<open>deliver_retry_counterexample\<close>, which also shows the value the retry passes
  for \<open>preferHTMLBody\<close>). Amended: for every message and recipient, the loop calls the
  notifier for the recipient with the configured preference; if that call fails with
  an \<open>ErrSendMessage\<close> and the preference is HTML, the loop calls the notifier exactly
  once more, for the same recipient; any other failure (an error of another kind, a
  call made with the plain-text preference, or the failure of the second call) ends
  the delivery to that recipient, and no third call is made. Over a message, every
  recipient is called for, with at most two calls each.
\<close>

theorem deliver_retry_policy:
  "fst (snd (deliver send preferHTML e recipient w)) \<noteq> []
   \<and> hd (fst (snd (deliver send preferHTML e recipient w)))
       = (recipient, preferHTML,
          fst (send recipient (From e) (To e) (Subject e) (Body e) preferHTML w))
   \<and> length (fst (snd (deliver send preferHTML e recipient w))) \<le> 2
   \<and> (\<forall>a \<in> set (fst (snd (deliver send preferHTML e recipient w))). fst a = recipient)
   \<and> (length (fst (snd (deliver send preferHTML e recipient w))) = 2
        \<longleftrightarrow> preferHTML
            \<and> (\<exists>err. fst (send recipient (From e) (To e) (Subject e) (Body e) preferHTML w)
                         = Some err \<and> is_ErrSendMessage err))
   \<and> fst ` set (fst (snd (deliver_all send preferHTML e rs w))) = set rs
   \<and> length (fst (snd (deliver_all send preferHTML e rs w))) \<le> 2 * length rs"
  using deliver_all_recipients [of send preferHTML e rs w]
  by (auto simp: deliver_attempts split: prod.splits option.splits)

theorem deliver_retry_policy_witness:
  "fst (snd (deliver (slackService (example_client [''a@x.io'']) example_converter) True
               (example_email []) ''a@x.io'' ()))
     = [(''a@x.io'', True, Some (ErrSendMessage ''U1'' ''empty HTML body'')),
        (''a@x.io'', True, Some (ErrSendMessage ''U1'' ''empty HTML body''))]
   \<and> fst (snd (deliver (slackService (example_client [''a@x.io'']) example_converter) True
               (example_email ''<p>hi</p>'') ''a@x.io'' ()))
     = [(''a@x.io'', True, None)]"
proof -
  have two: "fst (snd (deliver (slackService (example_client [''a@x.io'']) example_converter) True
               (example_email []) ''a@x.io'' ()))
     = [(''a@x.io'', True, Some (ErrSendMessage ''U1'' ''empty HTML body'')),
        (''a@x.io'', True, Some (ErrSendMessage ''U1'' ''empty HTML body''))]"
    by (simp add: deliver_def slackService_def SendMessage_def example_client_def
          example_email_def TrimSpace_def trimLeft.simps trimRight.simps)
  have one: "fst (snd (deliver (slackService (example_client [''a@x.io'']) example_converter) True
               (example_email ''<p>hi</p>'') ''a@x.io'' ()))
     = [(''a@x.io'', True, None)]"
    by (simp add: deliver_def slackService_def SendMessage_def example_client_def
          example_email_def example_converter_def TrimSpace_def trimLeft.simps trimRight.simps
          DecodeRuneInString_def DecodeLastRuneInString_def IsSpace_def htmlToSlack_def
          htmlToMarkdown_def)
  from deliver_retry_policy [of "slackService (example_client [''a@x.io'']) example_converter"
      True "example_email []" "''a@x.io''" "()" "[]"] two one
  show ?thesis by simp
qed

text \<open>The counterexample to C1 as stated: the first call fails with
  \<open>ErrUserNotFound\<close> under the HTML preference and no second call is made; and where
  the first call fails with an \<open>ErrSendMessage\<close> (the message has a plain-text body and
  no HTML body), the second call is made with \<open>preferHTMLBody\<close> true again.\<close>

theorem deliver_retry_counterexample:
  "fst (snd (deliver (slackService (example_client []) example_converter) True
               (example_email ''<p>hi</p>'') ''a@x.io'' ()))
     = [(''a@x.io'', True, Some (ErrUserNotFound ''a@x.io'' ''users_not_found''))]
   \<and> fst (snd (deliver (slackService (example_client [''a@x.io'']) example_converter) True
               (example_email []) ''a@x.io'' ()))
     = [(''a@x.io'', True, Some (ErrSendMessage ''U1'' ''empty HTML body'')),
        (''a@x.io'', True, Some (ErrSendMessage ''U1'' ''empty HTML body''))]"
  by (simp add: deliver_def slackService_def SendMessage_def example_client_def
        example_email_def TrimSpace_def trimLeft.simps trimRight.simps)

end
